theory Spec2Isabelle
  imports Complex_Main "HOL-Library.Word" "HOL-Library.Signed_Division" "HOL-Library.Multiset"
begin

section \<open>Numbers of the C++ source\<close>

text \<open>
  The wrapper \<^verbatim>\<open>rubik_python_wrapper.cpp\<close> computes with \<^verbatim>\<open>uint8_t\<close>, \<^verbatim>\<open>int\<close>,
  \<^verbatim>\<open>float\<close> and \<^verbatim>\<open>double\<close>.

  \<^item> \<^verbatim>\<open>uint8_t\<close> is \<open>8 word\<close>.
  \<^item> \<^verbatim>\<open>int\<close> is \<open>int\<close>: signed overflow is undefined behaviour in C++, so the model
    covers the runs in which no \<^verbatim>\<open>int\<close> expression overflows.
  \<^item> A finite \<^verbatim>\<open>float\<close> or \<^verbatim>\<open>double\<close> is the rational number it denotes. Every
    \<^verbatim>\<open>float\<close> operation rounds its exact result to binary32 (24 significant bits,
    round to nearest, ties to even, gradual underflow below \<open>2 powi -126\<close>) with
    \<open>f32_round\<close>. Infinities, NaN and the sign of zero are outside the model.
\<close>

type_synonym uint8_t = "8 word"
type_synonym float = rat
type_synonym double = rat

definition round_half_even :: "rat \<Rightarrow> int" where
  "round_half_even y =
     (let f = \<lfloor>y\<rfloor>; d = y - of_int f
      in if d < 1 / 2 then f
         else if 1 / 2 < d then f + 1
         else if even f then f else f + 1)"

function bit_length :: "int \<Rightarrow> int" where
  \<comment> \<open>the number of binary digits of a positive integer\<close>
  "bit_length n = (if 0 < n then bit_length (n div 2) + 1 else 0)"
  by pat_completeness auto
termination
  by (relation "measure nat") auto

declare bit_length.simps [simp del]

definition f32_expo :: "rat \<Rightarrow> int" where
  \<comment> \<open>for \<open>x \<noteq> 0\<close>: the \<open>e\<close> with \<open>2 powi e \<le> \<bar>x\<bar> < 2 powi (e + 1)\<close>\<close>
  "f32_expo x =
     (let (p, q) = quotient_of x;
          e0 = bit_length \<bar>p\<bar> - bit_length q
      in if 2 powi e0 \<le> \<bar>x\<bar> then e0 else e0 - 1)"

definition f32_round :: "rat \<Rightarrow> float" where
  "f32_round x =
     (if x = 0 then 0
      else let e = max (f32_expo x) (- 126);
               q = 2 powi (e - 23)
           in of_int (round_half_even (x / q)) * q)"

definition f32_of_int :: "int \<Rightarrow> float" where
  \<comment> \<open>\<^verbatim>\<open>static_cast<float>(i)\<close> and the implicit conversion of an \<^verbatim>\<open>int\<close> operand\<close>
  "f32_of_int i = f32_round (of_int i)"

definition f32_of_double :: "double \<Rightarrow> float" where
  "f32_of_double d = f32_round d"

definition f32_sub :: "float \<Rightarrow> float \<Rightarrow> float" where
  "f32_sub a b = f32_round (a - b)"

definition f32_mul :: "float \<Rightarrow> float \<Rightarrow> float" where
  "f32_mul a b = f32_round (a * b)"

definition f32_div :: "float \<Rightarrow> float \<Rightarrow> float" where
  \<comment> \<open>the model divides by positive numbers only\<close>
  "f32_div a b = f32_round (a / b)"

definition std_round :: "float \<Rightarrow> float" where
  \<comment> \<open>\<^verbatim>\<open>std::round\<close>: nearest integer, halfway cases away from zero\<close>
  "std_round x = (if 0 \<le> x then of_int \<lfloor>x + 1 / 2\<rfloor> else - of_int \<lfloor>- x + 1 / 2\<rfloor>)"

definition int_of_float :: "float \<Rightarrow> int" where
  \<comment> \<open>\<^verbatim>\<open>static_cast<int>(x)\<close>: the fraction is discarded\<close>
  "int_of_float x = (if 0 \<le> x then \<lfloor>x\<rfloor> else \<lceil>x\<rceil>)"

section \<open>Errors\<close>

text \<open>
  A call of the wrapper ends with a result or with one of these.
  \<^item> \<open>RuntimeError\<close>: a \<^verbatim>\<open>std::runtime_error\<close> thrown by the wrapper, with its message.
  \<^item> \<open>CvError\<close>: an assertion of OpenCV fails (\<^verbatim>\<open>cv::Exception\<close>): \<^verbatim>\<open>cv::resize\<close> and
    \<^verbatim>\<open>cv::cvtColor\<close> reject an empty image, \<^verbatim>\<open>cv::resize\<close> rejects an empty target
    size, and a region of interest must lie inside its image.
  \<^item> \<open>OutOfBounds\<close>: a read outside a buffer, and \<open>NullPointer\<close>: a use of a tensor
    the interpreter does not have. Both are undefined behaviour in C++.
  \<^item> \<open>NonFinite\<close>: an infinity or NaN appears, which the model of \<^verbatim>\<open>float\<close> does not
    cover.
\<close>

datatype error =
    RuntimeError string
  | CvError
  | OutOfBounds
  | NullPointer
  | NonFinite

section \<open>Tensors of the TensorFlow Lite C API\<close>

datatype TfLiteType =
    kTfLiteNoType
  | kTfLiteFloat32
  | kTfLiteInt32
  | kTfLiteUInt8
  | kTfLiteInt64
  | kTfLiteString
  | kTfLiteBool
  | kTfLiteInt16
  | kTfLiteComplex64
  | kTfLiteInt8
  | kTfLiteFloat16
  | kTfLiteFloat64
  | kTfLiteComplex128
  | kTfLiteUInt64
  | kTfLiteResource
  | kTfLiteVariant
  | kTfLiteUInt32
  | kTfLiteUInt16
  | kTfLiteInt4

text \<open>
  \<^verbatim>\<open>TfLiteQuantizationParams\<close> has the fields \<^verbatim>\<open>scale\<close> (a \<^verbatim>\<open>float\<close>) and
  \<^verbatim>\<open>zero_point\<close> (an \<^verbatim>\<open>int32_t\<close>).
\<close>

record TfLiteQuantizationParams =
  params_scale :: float
  params_zero_point :: int

text \<open>
  A tensor is its element type, its dimensions, its bytes and its quantization
  parameters. The accessors of the C API read these fields.
\<close>

record TfLiteTensor =
  t_type :: TfLiteType
  t_dims :: "int list"
  t_data :: "uint8_t list"
  t_params :: TfLiteQuantizationParams

definition TfLiteTensorType :: "TfLiteTensor \<Rightarrow> TfLiteType" where
  "TfLiteTensorType tensor = t_type tensor"

definition TfLiteTensorNumDims :: "TfLiteTensor \<Rightarrow> int" where
  "TfLiteTensorNumDims tensor = int (length (t_dims tensor))"

definition TfLiteTensorDim :: "TfLiteTensor \<Rightarrow> int \<Rightarrow> error + int" where
  "TfLiteTensorDim tensor i =
     (if 0 \<le> i \<and> i < int (length (t_dims tensor))
      then Inr (t_dims tensor ! nat i) else Inl OutOfBounds)"

definition TfLiteTensorData :: "TfLiteTensor \<Rightarrow> uint8_t list" where
  "TfLiteTensorData tensor = t_data tensor"

definition TfLiteTensorByteSize :: "TfLiteTensor \<Rightarrow> nat" where
  "TfLiteTensorByteSize tensor = length (t_data tensor)"

definition TfLiteTensorQuantizationParams :: "TfLiteTensor \<Rightarrow> TfLiteQuantizationParams" where
  "TfLiteTensorQuantizationParams tensor = t_params tensor"

section \<open>Dequantization\<close>

definition read_u8 :: "uint8_t list \<Rightarrow> int \<Rightarrow> error + uint8_t" where
  \<comment> \<open>\<^verbatim>\<open>static_cast<uint8_t*>(data)[idx]\<close>\<close>
  "read_u8 data idx =
     (if 0 \<le> idx \<and> idx < int (length data) then Inr (data ! nat idx) else Inl OutOfBounds)"

definition f32_of_bytes :: "uint8_t list \<Rightarrow> error + float" where
  \<comment> \<open>the binary32 value of four bytes, least significant byte first\<close>
  "f32_of_bytes bs =
     (case bs of
        [b0, b1, b2, b3] \<Rightarrow>
          (let n = uint b0 + 256 * uint b1 + 65536 * uint b2 + 16777216 * uint b3;
               sign = (if n div 2 ^ 31 = 0 then 1 else - 1);
               e = (n div 2 ^ 23) mod 256;
               m = n mod 2 ^ 23
           in if e = 255 then Inl NonFinite
              else if e = 0 then Inr (sign * of_int m * 2 powi (- 149))
              else Inr (sign * of_int (2 ^ 23 + m) * 2 powi (e - 150)))
      | _ \<Rightarrow> Inl OutOfBounds)"

definition read_f32 :: "uint8_t list \<Rightarrow> int \<Rightarrow> error + float" where
  \<comment> \<open>\<^verbatim>\<open>static_cast<float*>(data)[idx]\<close>\<close>
  "read_f32 data idx =
     (if 0 \<le> idx \<and> 4 * idx + 4 \<le> int (length data)
      then f32_of_bytes (take 4 (drop (4 * nat idx) data)) else Inl OutOfBounds)"

definition get_dequant_value ::
  "uint8_t list \<Rightarrow> TfLiteType \<Rightarrow> int \<Rightarrow> float \<Rightarrow> float \<Rightarrow> error + float"
where
  "get_dequant_value data tensor_type idx zero_point scale =
     (case tensor_type of
        kTfLiteUInt8 \<Rightarrow>
          (case read_u8 data idx of
             Inl e \<Rightarrow> Inl e
           | Inr raw \<Rightarrow> Inr (f32_mul (f32_sub (f32_of_int (uint raw)) zero_point) scale))
      | kTfLiteFloat32 \<Rightarrow> read_f32 data idx
      | _ \<Rightarrow> Inr 0)"

section \<open>Geometry of the input tensor\<close>

text \<open>
  \<open>dims_loop\<close> is the \<^verbatim>\<open>for\<close> loop of \<^verbatim>\<open>tensor_image_dims\<close> over the dimensions that
  are left. Its state is \<^verbatim>\<open>cursor\<close> and the contents of \<^verbatim>\<open>*w\<close>, \<^verbatim>\<open>*h\<close>, \<^verbatim>\<open>*c\<close>;
  \<open>None\<close> is a \<^verbatim>\<open>return false\<close> inside the loop. Both callers pass three pointers
  to uninitialised variables, so \<open>tensor_image_dims\<close> takes what these hold at the
  call as an argument, and \<open>Some (w, h, c)\<close> is \<^verbatim>\<open>true\<close> with what they hold at the
  return.
\<close>

fun dims_loop :: "int list \<Rightarrow> int \<Rightarrow> int \<times> int \<times> int \<Rightarrow> (int \<times> int \<times> int \<times> int) option" where
  "dims_loop [] cursor (w, h, c) = Some (cursor, w, h, c)"
| "dims_loop (dim' # rest) cursor (w, h, c) =
     (if dim' = 0 then None
      else if dim' = 1 then dims_loop rest cursor (w, h, c)
      else if cursor = 0 then dims_loop rest (cursor + 1) (dim', h, c)
      else if cursor = 1 then dims_loop rest (cursor + 1) (w, dim', c)
      else if cursor = 2 then dims_loop rest (cursor + 1) (w, h, dim')
      else None)"

definition tensor_image_dims :: "TfLiteTensor \<Rightarrow> int \<times> int \<times> int \<Rightarrow> (int \<times> int \<times> int) option" where
  "tensor_image_dims tensor whc =
     (case dims_loop (t_dims tensor) 0 whc of
        None \<Rightarrow> None
      | Some (cursor, w, h, c) \<Rightarrow>
          if cursor < 2 then None
          else let c = (if cursor = 2 then 1 else c)
               in if 4 < c then None else Some (w, h, c))"

section \<open>Images of OpenCV\<close>

text \<open>
  A \<^verbatim>\<open>cv::Mat\<close> of 8-bit channels: \<open>pixels m ! r ! c\<close> is the pixel in row \<open>r\<close> and
  column \<open>c\<close>, one byte for each channel. \<open>channels\<close> stands for \<^verbatim>\<open>type()\<close>: the
  wrapper makes only \<^verbatim>\<open>CV_8UC3\<close> images. \<open>mat_bytes\<close> is the buffer behind \<^verbatim>\<open>data\<close>:
  row after row, pixel after pixel.
\<close>

record Mat =
  rows :: int
  cols :: int
  channels :: nat
  pixels :: "uint8_t list list list"

definition mat_bytes :: "Mat \<Rightarrow> uint8_t list" where
  "mat_bytes m = concat (concat (pixels m))"

definition zeros :: "int \<Rightarrow> int \<Rightarrow> nat \<Rightarrow> Mat" where
  \<comment> \<open>\<^verbatim>\<open>cv::Mat::zeros(cv::Size(width, height), type)\<close>\<close>
  "zeros width height type =
     \<lparr>rows = height, cols = width, channels = type,
      pixels = replicate (nat height) (replicate (nat width) (replicate type 0))\<rparr>"

text \<open>
  \<^verbatim>\<open>cv::resize\<close> rejects an empty source and an empty target size. Otherwise the result
  has the size asked for and the type of the source. How it computes a byte from the
  source is OpenCV's business: the function \<open>interp\<close>, from the source, the target
  size, the row, the column and the channel to the byte, is a parameter.
\<close>

type_synonym interpolation = "Mat \<Rightarrow> int \<Rightarrow> int \<Rightarrow> nat \<Rightarrow> nat \<Rightarrow> nat \<Rightarrow> uint8_t"

definition cv_resize :: "interpolation \<Rightarrow> Mat \<Rightarrow> int \<Rightarrow> int \<Rightarrow> error + Mat" where
  "cv_resize interp src width height =
     (if rows src \<le> 0 \<or> cols src \<le> 0 \<or> width \<le> 0 \<or> height \<le> 0 then Inl CvError
      else Inr \<lparr>rows = height, cols = width, channels = channels src,
                pixels = map (\<lambda>r. map (\<lambda>c. map (\<lambda>k. interp src width height r c k)
                                            [0..<channels src])
                                  [0..<nat width])
                           [0..<nat height]\<rparr>)"

text \<open>
  \<^verbatim>\<open>src.copyTo(dst(cv::Rect(x, y, width, height)))\<close> for a \<open>src\<close> of that size and of the
  type of \<open>dst\<close>: the rectangle must lie inside \<open>dst\<close>, and the pixels of \<open>src\<close>
  replace those of \<open>dst\<close> in it.
\<close>

definition copyTo_roi :: "Mat \<Rightarrow> Mat \<Rightarrow> int \<Rightarrow> int \<Rightarrow> int \<Rightarrow> int \<Rightarrow> error + Mat" where
  "copyTo_roi src dst x y width height =
     (if 0 \<le> x \<and> 0 \<le> width \<and> x + width \<le> cols dst \<and>
         0 \<le> y \<and> 0 \<le> height \<and> y + height \<le> rows dst
      then Inr (dst\<lparr>pixels :=
                  map (\<lambda>r. map (\<lambda>c. if y \<le> int r \<and> int r < y + height \<and>
                                        x \<le> int c \<and> int c < x + width
                                     then pixels src ! (r - nat y) ! (c - nat x)
                                     else pixels dst ! r ! c)
                                [0..<nat (cols dst)])
                      [0..<nat (rows dst)]\<rparr>)
      else Inl CvError)"

definition cvtColor_BGR2RGB :: "Mat \<Rightarrow> error + Mat" where
  \<comment> \<open>\<^verbatim>\<open>cv::cvtColor(src, dst, cv::COLOR_BGR2RGB)\<close> on a three-channel image\<close>
  "cvtColor_BGR2RGB src =
     (if rows src \<le> 0 \<or> cols src \<le> 0 then Inl CvError
      else Inr (src\<lparr>pixels :=
                  map (map (\<lambda>px. case px of [b, g, r] \<Rightarrow> [r, g, b] | _ \<Rightarrow> px)) (pixels src)\<rparr>))"

section \<open>Letterbox\<close>

text \<open>
  The scale and the size of the resized image, as \<^verbatim>\<open>letterbox\<close> computes them in
  \<^verbatim>\<open>float\<close>, and the corner of the paste, with the division of C++ that truncates.
\<close>

definition letterbox_scale :: "Mat \<Rightarrow> int \<Rightarrow> float" where
  "letterbox_scale img target_size' =
     f32_div (f32_of_int target_size') (f32_of_int (max (rows img) (cols img)))"

definition letterbox_new_w :: "Mat \<Rightarrow> int \<Rightarrow> int" where
  "letterbox_new_w img target_size' =
     int_of_float (f32_mul (f32_of_int (cols img)) (letterbox_scale img target_size'))"

definition letterbox_new_h :: "Mat \<Rightarrow> int \<Rightarrow> int" where
  "letterbox_new_h img target_size' =
     int_of_float (f32_mul (f32_of_int (rows img)) (letterbox_scale img target_size'))"

definition letterbox_top :: "Mat \<Rightarrow> int \<Rightarrow> int" where
  "letterbox_top img target_size' = (target_size' - letterbox_new_h img target_size') sdiv 2"

definition letterbox_left :: "Mat \<Rightarrow> int \<Rightarrow> int" where
  "letterbox_left img target_size' = (target_size' - letterbox_new_w img target_size') sdiv 2"

text \<open>
  For an image without rows and columns the source divides by zero; the infinity or
  NaN that follows is outside the model of \<^verbatim>\<open>float\<close>.
\<close>

definition letterbox :: "interpolation \<Rightarrow> Mat \<Rightarrow> int \<Rightarrow> error + Mat" where
  "letterbox interp img target_size' =
     (if max (rows img) (cols img) = 0 then Inl NonFinite
      else let new_w = letterbox_new_w img target_size';
               new_h = letterbox_new_h img target_size'
           in case cv_resize interp img new_w new_h of
                Inl e \<Rightarrow> Inl e
              | Inr resized \<Rightarrow>
                  let output = zeros target_size' target_size' (channels img)
                  in copyTo_roi resized output
                       (letterbox_left img target_size') (letterbox_top img target_size')
                       new_w new_h)"

text \<open>
  \<open>in_paste\<close>: the pixel in row \<open>r\<close> and column \<open>c\<close> of the canvas lies in the rectangle
  \<^verbatim>\<open>cv::Rect(left, top, new_w, new_h)\<close> that receives the resized image.
\<close>

definition in_paste :: "Mat \<Rightarrow> int \<Rightarrow> nat \<Rightarrow> nat \<Rightarrow> bool" where
  "in_paste img target_size' r c \<longleftrightarrow>
     letterbox_top img target_size' \<le> int r \<and>
     int r < letterbox_top img target_size' + letterbox_new_h img target_size' \<and>
     letterbox_left img target_size' \<le> int c \<and>
     int c < letterbox_left img target_size' + letterbox_new_w img target_size'"

text \<open>One interpolation for the examples: the nearest pixel of the source.\<close>

definition nearest :: interpolation where
  "nearest src width height r c k =
     pixels src ! nat (int r * rows src div height) ! nat (int c * cols src div width) ! k"

section \<open>Boxes and detections\<close>

record BoxRect =
  left :: int
  right :: int
  top' :: int
  bottom :: int

record DetectionResult =
  id' :: int
  box :: BoxRect
  confidence :: float

section \<open>Intersection over union\<close>

definition calculateIoU :: "BoxRect \<Rightarrow> BoxRect \<Rightarrow> float" where
  "calculateIoU box1 box2 =
     (let x1 = max (left box1) (left box2);
          y1 = max (top' box1) (top' box2);
          x2 = min (right box1) (right box2);
          y2 = min (bottom box1) (bottom box2)
      in if x2 \<le> x1 \<or> y2 \<le> y1 then 0
         else let intersectionArea = (x2 - x1) * (y2 - y1);
                  area1 = (right box1 - left box1) * (bottom box1 - top' box1);
                  area2 = (right box2 - left box2) * (bottom box2 - top' box2)
              in f32_div (f32_of_int intersectionArea)
                   (f32_of_int (area1 + area2 - intersectionArea)))"

section \<open>Non-maximum suppression\<close>

text \<open>
  \<^verbatim>\<open>std::sort\<close> with the comparator \<^verbatim>\<open>a.confidence > b.confidence\<close> leaves the
  candidates as a permutation of themselves in which no candidate has a greater
  confidence than an earlier one. Which of these permutations it is, among candidates
  of equal confidence, is up to the library: the sort is not stable. The function
  \<open>choice\<close>, from the candidates to the permutation that the library gives them, is a
  parameter. Where \<open>choice\<close> gives anything else than such a permutation, \<open>std_sort\<close>
  sorts by insertion: every \<open>choice\<close> stands for a library, and every library is a
  \<open>choice\<close>.
\<close>

type_synonym sort_choice = "DetectionResult list \<Rightarrow> DetectionResult list"

definition insertion_sort :: sort_choice where
  \<comment> \<open>the library that keeps candidates of equal confidence in their order\<close>
  "insertion_sort candidates = sort_key (\<lambda>d. - confidence d) candidates"

definition std_sort :: "sort_choice \<Rightarrow> DetectionResult list \<Rightarrow> DetectionResult list" where
  "std_sort choice candidates =
     (let permuted = choice candidates
      in if mset permuted = mset candidates \<and>
            sorted_wrt (\<lambda>a b. \<not> confidence a < confidence b) permuted
         then permuted else insertion_sort candidates)"

text \<open>
  The two nested loops of \<^verbatim>\<open>optimizedNMS\<close> run over the sorted candidates and the
  vector \<^verbatim>\<open>suppressed\<close>. The model pairs every candidate with its flag. \<open>nms_inner\<close> is
  the loop over \<open>j\<close>: it visits the candidates after \<open>currentBox\<close>. \<open>nms_outer\<close> is the
  loop over \<open>i\<close>.
\<close>

definition nms_inner ::
  "DetectionResult \<Rightarrow> float \<Rightarrow> (bool \<times> DetectionResult) list \<Rightarrow> (bool \<times> DetectionResult) list"
where
  "nms_inner currentBox nmsThreshold later =
     map (\<lambda>(suppressed, cand).
            if suppressed \<or> id' cand \<noteq> id' currentBox then (suppressed, cand)
            else if nmsThreshold < calculateIoU (box currentBox) (box cand) then (True, cand)
            else (suppressed, cand)) later"

function nms_outer :: "float \<Rightarrow> (bool \<times> DetectionResult) list \<Rightarrow> DetectionResult list" where
  "nms_outer nmsThreshold [] = []"
| "nms_outer nmsThreshold ((suppressed, cand) # later) =
     (if suppressed then nms_outer nmsThreshold later
      else cand # nms_outer nmsThreshold (nms_inner cand nmsThreshold later))"
  by pat_completeness auto
termination
  by (relation "measure (\<lambda>(nmsThreshold, flagged). length flagged)") (auto simp: nms_inner_def)

definition optimizedNMS ::
  "sort_choice \<Rightarrow> DetectionResult list \<Rightarrow> float \<Rightarrow> DetectionResult list"
where
  "optimizedNMS choice candidates nmsThreshold =
     (if candidates = [] then []
      else nms_outer nmsThreshold (map (Pair False) (std_sort choice candidates)))"

section \<open>The detector\<close>

definition bind_err :: "error + 'a \<Rightarrow> ('a \<Rightarrow> error + 'b) \<Rightarrow> error + 'b" where
  \<comment> \<open>an error ends the call; a value goes to the rest of the function\<close>
  "bind_err m f = (case m of Inl e \<Rightarrow> Inl e | Inr x \<Rightarrow> f x)"

text \<open>
  \<^verbatim>\<open>py::buffer_info\<close> of the image: \<^verbatim>\<open>shape\<close>, with \<^verbatim>\<open>ndim\<close> its length, and the
  bytes at \<^verbatim>\<open>ptr\<close>. \<^verbatim>\<open>detect\<close> reads them as a contiguous array in row-major order.
\<close>

record buffer_info =
  shape :: "int list"
  ptr :: "uint8_t list"

definition ndim :: "buffer_info \<Rightarrow> int" where
  "ndim buf = int (length (shape buf))"

text \<open>
  The interpreter, as far as \<^verbatim>\<open>detect\<close> uses it: its input tensor 0, and what
  \<^verbatim>\<open>TfLiteInterpreterInvoke\<close> does with the bytes of the input tensor: \<open>None\<close> when
  the status is not \<^verbatim>\<open>kTfLiteOk\<close>, else the output tensors.
\<close>

record RubikDetector =
  input_tensor :: TfLiteTensor
  invoke :: "uint8_t list \<Rightarrow> TfLiteTensor list option"

definition output_tensor :: "TfLiteTensor list \<Rightarrow> nat \<Rightarrow> error + TfLiteTensor" where
  \<comment> \<open>\<^verbatim>\<open>TfLiteInterpreterGetOutputTensor\<close>, whose result \<^verbatim>\<open>detect\<close> uses unchecked\<close>
  "output_tensor outputs i = (if i < length outputs then Inr (outputs ! i) else Inl NullPointer)"

definition mat_of_buffer :: "int \<Rightarrow> int \<Rightarrow> uint8_t list \<Rightarrow> error + Mat" where
  \<comment> \<open>\<^verbatim>\<open>cv::Mat(img_h, img_w, CV_8UC3, buf.ptr)\<close>: a view of the first \<open>img_h * img_w * 3\<close> bytes\<close>
  "mat_of_buffer img_h img_w bytes =
     (if int (length bytes) < img_h * img_w * 3 then Inl OutOfBounds
      else Inr \<lparr>rows = img_h, cols = img_w, channels = 3,
                pixels = map (\<lambda>r. map (\<lambda>c. take 3 (drop ((r * nat img_w + c) * 3) bytes))
                                  [0..<nat img_w])
                           [0..<nat img_h]\<rparr>)"

definition memcpy :: "uint8_t list \<Rightarrow> nat \<Rightarrow> error + uint8_t list" where
  \<comment> \<open>the \<open>n\<close> bytes that \<^verbatim>\<open>std::memcpy(dst, src, n)\<close> writes to \<open>dst\<close>\<close>
  "memcpy src n = (if length src < n then Inl OutOfBounds else Inr (take n src))"

text \<open>
  The first part of \<^verbatim>\<open>detect\<close>, up to the \<^verbatim>\<open>std::memcpy\<close>: the result is what the
  call writes into the input tensor. \<^verbatim>\<open>in_w\<close>, \<^verbatim>\<open>in_h\<close> and \<^verbatim>\<open>in_c\<close> are not
  initialised; \<open>tensor_image_dims\<close> starts from zeros here.
\<close>

definition detect_input :: "interpolation \<Rightarrow> RubikDetector \<Rightarrow> buffer_info \<Rightarrow> error + uint8_t list" where
  "detect_input interp self buf =
     (if ndim buf \<noteq> 3 then Inl (RuntimeError ''Image must be 3-dimensional (H, W, C)'')
      else let img_h = shape buf ! 0; img_w = shape buf ! 1; img_c = shape buf ! 2;
               input = input_tensor self
           in case tensor_image_dims input (0, 0, 0) of
                None \<Rightarrow> Inl (RuntimeError ''Invalid input tensor shape'')
              | Some (in_w, in_h, in_c) \<Rightarrow>
                  bind_err (mat_of_buffer img_h img_w (ptr buf)) (\<lambda>img_mat.
                  bind_err (cvtColor_BGR2RGB img_mat) (\<lambda>rgb.
                  bind_err (if img_w \<noteq> in_w \<or> img_h \<noteq> in_h
                            then letterbox interp img_mat in_w else Inr img_mat) (\<lambda>img_mat.
                  memcpy (mat_bytes rgb) (TfLiteTensorByteSize input)))))"

text \<open>One round of the loop over the boxes: \<open>None\<close> is a \<^verbatim>\<open>continue\<close>.\<close>

definition candidate ::
  "uint8_t list \<Rightarrow> uint8_t list \<Rightarrow> uint8_t list \<Rightarrow>
   TfLiteQuantizationParams \<Rightarrow> TfLiteQuantizationParams \<Rightarrow>
   double \<Rightarrow> int \<Rightarrow> int \<Rightarrow> int \<Rightarrow> error + DetectionResult option"
where
  "candidate boxesData scoresData classesData boxesParams scoresParams box_threshold img_w img_h i =
     bind_err (get_dequant_value scoresData kTfLiteUInt8 i
                 (f32_of_int (params_zero_point scoresParams)) (params_scale scoresParams)) (\<lambda>score.
     if score < box_threshold then Inr None
     else
     bind_err (read_u8 classesData i) (\<lambda>classId.
     bind_err (read_u8 boxesData (i * 4 + 0)) (\<lambda>raw_x_1_u8.
     bind_err (read_u8 boxesData (i * 4 + 1)) (\<lambda>raw_y_1_u8.
     bind_err (read_u8 boxesData (i * 4 + 2)) (\<lambda>raw_x_2_u8.
     bind_err (read_u8 boxesData (i * 4 + 3)) (\<lambda>raw_y_2_u8.
     bind_err (get_dequant_value [raw_x_1_u8] kTfLiteUInt8 0
                 (f32_of_int (params_zero_point boxesParams)) (params_scale boxesParams)) (\<lambda>x1.
     bind_err (get_dequant_value [raw_y_1_u8] kTfLiteUInt8 0
                 (f32_of_int (params_zero_point boxesParams)) (params_scale boxesParams)) (\<lambda>y1.
     bind_err (get_dequant_value [raw_x_2_u8] kTfLiteUInt8 0
                 (f32_of_int (params_zero_point boxesParams)) (params_scale boxesParams)) (\<lambda>x2.
     bind_err (get_dequant_value [raw_y_2_u8] kTfLiteUInt8 0
                 (f32_of_int (params_zero_point boxesParams)) (params_scale boxesParams)) (\<lambda>y2.
     let clamped_x1 = max 0 (min x1 (f32_of_int img_w));
         clamped_y1 = max 0 (min y1 (f32_of_int img_h));
         clamped_x2 = max 0 (min x2 (f32_of_int img_w));
         clamped_y2 = max 0 (min y2 (f32_of_int img_h))
     in if clamped_x2 \<le> clamped_x1 \<or> clamped_y2 \<le> clamped_y1 then Inr None
        else Inr (Some \<lparr>id' = uint classId,
                        box = \<lparr>left = int_of_float (std_round clamped_x1),
                               right = int_of_float (std_round clamped_x2),
                               top' = int_of_float (std_round clamped_y1),
                               bottom = int_of_float (std_round clamped_y2)\<rparr>,
                        confidence = score\<rparr>)))))))))))"

fun candidates_loop ::
  "(int \<Rightarrow> error + DetectionResult option) \<Rightarrow> int list \<Rightarrow> DetectionResult list \<Rightarrow>
   error + DetectionResult list"
where
  "candidates_loop body [] candidateResults = Inr candidateResults"
| "candidates_loop body (i # rest) candidateResults =
     (case body i of
        Inl e \<Rightarrow> Inl e
      | Inr None \<Rightarrow> candidates_loop body rest candidateResults
      | Inr (Some d) \<Rightarrow> candidates_loop body rest (candidateResults @ [d]))"

text \<open>The second part of \<^verbatim>\<open>detect\<close>: from the output tensors to the candidates.\<close>

definition detect_candidates ::
  "TfLiteTensor list \<Rightarrow> double \<Rightarrow> int \<Rightarrow> int \<Rightarrow> error + DetectionResult list"
where
  "detect_candidates outputs box_threshold img_w img_h =
     bind_err (output_tensor outputs 0) (\<lambda>boxesTensor.
     bind_err (output_tensor outputs 1) (\<lambda>scoresTensor.
     bind_err (output_tensor outputs 2) (\<lambda>classesTensor.
     let boxesParams = TfLiteTensorQuantizationParams boxesTensor;
         scoresParams = TfLiteTensorQuantizationParams scoresTensor
     in bind_err (TfLiteTensorDim boxesTensor 1) (\<lambda>numBoxes.
        let boxesData = TfLiteTensorData boxesTensor;
            scoresData = TfLiteTensorData scoresTensor;
            classesData = TfLiteTensorData classesTensor
        in candidates_loop
             (candidate boxesData scoresData classesData boxesParams scoresParams
                box_threshold img_w img_h)
             [0..numBoxes - 1] []))))"

definition detect ::
  "interpolation \<Rightarrow> sort_choice \<Rightarrow> RubikDetector \<Rightarrow> buffer_info \<Rightarrow> double \<Rightarrow> double \<Rightarrow>
   error + DetectionResult list"
where
  "detect interp choice self image' box_threshold nms_threshold =
     bind_err (detect_input interp self image') (\<lambda>input_data.
     case invoke self input_data of
       None \<Rightarrow> Inl (RuntimeError ''Interpreter invocation failed'')
     | Some outputs \<Rightarrow>
         bind_err (detect_candidates outputs box_threshold (shape image' ! 1) (shape image' ! 0))
           (\<lambda>candidateResults.
         Inr (optimizedNMS choice candidateResults (f32_of_double nms_threshold))))"

text \<open>
  What the specification says of the same part of the call: the image goes through the
  colour conversion and then, when its size is not the size of the input tensor,
  through \<open>letterbox\<close>, and the result is what the input tensor receives.
  \<open>detect_input_spec\<close> follows these words, for the comparison with \<open>detect_input\<close>.
\<close>

definition detect_input_spec ::
  "interpolation \<Rightarrow> RubikDetector \<Rightarrow> buffer_info \<Rightarrow> error + uint8_t list"
where
  "detect_input_spec interp self buf =
     (if ndim buf \<noteq> 3 then Inl (RuntimeError ''Image must be 3-dimensional (H, W, C)'')
      else let img_h = shape buf ! 0; img_w = shape buf ! 1;
               input = input_tensor self
           in case tensor_image_dims input (0, 0, 0) of
                None \<Rightarrow> Inl (RuntimeError ''Invalid input tensor shape'')
              | Some (in_w, in_h, in_c) \<Rightarrow>
                  bind_err (mat_of_buffer img_h img_w (ptr buf)) (\<lambda>img_mat.
                  bind_err (cvtColor_BGR2RGB img_mat) (\<lambda>rgb.
                  bind_err (if img_w \<noteq> in_w \<or> img_h \<noteq> in_h
                            then letterbox interp rgb in_w else Inr rgb) (\<lambda>letterboxed.
                  memcpy (mat_bytes letterboxed) (TfLiteTensorByteSize input)))))"

text \<open>
  \<open>decode_u8\<close>: the value of the 8-bit case of \<open>get_dequant_value\<close> for a raw byte
  and the quantization parameters of its tensor, as \<^verbatim>\<open>detect\<close> passes them.
\<close>

definition decode_u8 :: "uint8_t \<Rightarrow> TfLiteQuantizationParams \<Rightarrow> float" where
  "decode_u8 raw params =
     f32_mul (f32_sub (of_int (uint raw)) (f32_of_int (params_zero_point params)))
       (params_scale params)"

definition clamp_round :: "float \<Rightarrow> int \<Rightarrow> int" where
  \<comment> \<open>a coordinate, clamped to the image and rounded, as in the loop of \<^verbatim>\<open>detect\<close>\<close>
  "clamp_round x bound = int_of_float (std_round (max 0 (min x (f32_of_int bound))))"

text \<open>
  \<open>u8_candidate\<close>: the candidate of index \<open>i\<close> when the bytes of the three output
  tensors are decoded as 8-bit unsigned values with the parameters of their tensors;
  \<open>None\<close> when its score is below the threshold or its clamped box is empty. It is
  written from these words, for the comparison with \<open>detect\<close>.
\<close>

definition u8_candidate ::
  "TfLiteTensor \<Rightarrow> TfLiteTensor \<Rightarrow> TfLiteTensor \<Rightarrow> double \<Rightarrow> int \<Rightarrow> int \<Rightarrow> int \<Rightarrow>
   DetectionResult option"
where
  "u8_candidate boxesTensor scoresTensor classesTensor box_threshold img_w img_h i =
     (let score = decode_u8 (t_data scoresTensor ! nat i) (t_params scoresTensor);
          x1 = decode_u8 (t_data boxesTensor ! nat (i * 4 + 0)) (t_params boxesTensor);
          y1 = decode_u8 (t_data boxesTensor ! nat (i * 4 + 1)) (t_params boxesTensor);
          x2 = decode_u8 (t_data boxesTensor ! nat (i * 4 + 2)) (t_params boxesTensor);
          y2 = decode_u8 (t_data boxesTensor ! nat (i * 4 + 3)) (t_params boxesTensor)
      in if score < box_threshold then None
         else if max 0 (min x2 (f32_of_int img_w)) \<le> max 0 (min x1 (f32_of_int img_w)) \<or>
                 max 0 (min y2 (f32_of_int img_h)) \<le> max 0 (min y1 (f32_of_int img_h))
         then None
         else Some \<lparr>id' = uint (t_data classesTensor ! nat i),
                     box = \<lparr>left = clamp_round x1 img_w, right = clamp_round x2 img_w,
                            top' = clamp_round y1 img_h, bottom = clamp_round y2 img_h\<rparr>,
                     confidence = score\<rparr>)"

definition retype :: "(TfLiteTensor \<Rightarrow> TfLiteType) \<Rightarrow> RubikDetector \<Rightarrow> RubikDetector" where
  \<comment> \<open>the same detector, its output tensors declared with other element types\<close>
  "retype kind self =
     self\<lparr>invoke := (\<lambda>input_data.
       map_option (map (\<lambda>t. t\<lparr>t_type := kind t\<rparr>)) (invoke self input_data))\<rparr>"

section \<open>Examples\<close>

text \<open>
  Images of one colour, a detector for a model with a \<open>2 \<times> 2\<close> input of three
  8-bit channels, and output tensors for it. \<open>mk_tensor\<close> builds a tensor from its
  parts.
\<close>

definition mk_tensor :: "TfLiteType \<Rightarrow> int list \<Rightarrow> uint8_t list \<Rightarrow> float \<Rightarrow> int \<Rightarrow> TfLiteTensor" where
  "mk_tensor ty ds bytes sc zp =
     \<lparr>t_type = ty, t_dims = ds, t_data = bytes,
      t_params = \<lparr>params_scale = sc, params_zero_point = zp\<rparr>\<rparr>"

definition uniform_image :: "int \<Rightarrow> int \<Rightarrow> buffer_info" where
  \<comment> \<open>an image of height \<open>h\<close> and width \<open>w\<close>, every pixel blue 10, green 20, red 30\<close>
  "uniform_image h w = \<lparr>shape = [h, w, 3], ptr = concat (replicate (nat (h * w)) [10, 20, 30])\<rparr>"

definition uniform_mat :: "int \<Rightarrow> int \<Rightarrow> Mat" where
  "uniform_mat h w =
     \<lparr>rows = h, cols = w, channels = 3,
      pixels = replicate (nat h) (replicate (nat w) [10, 20, 30])\<rparr>"

definition detector_2x2 :: "TfLiteTensor list \<Rightarrow> RubikDetector" where
  \<comment> \<open>its model answers every input with the tensors \<open>outputs\<close>\<close>
  "detector_2x2 outputs =
     \<lparr>input_tensor = mk_tensor kTfLiteUInt8 [1, 2, 2, 3] (replicate 12 0) (1 / 256) 0,
      invoke = (\<lambda>input_data. Some outputs)\<rparr>"

definition subpixel_outputs :: "TfLiteTensor list" where
  \<comment> \<open>one box from (0, 0) to (0.25, 0.25), score 255 / 256, class 3\<close>
  "subpixel_outputs =
     [mk_tensor kTfLiteUInt8 [1, 1, 4] [0, 0, 1, 1] (1 / 4) 0,
      mk_tensor kTfLiteUInt8 [1, 1] [255] (1 / 256) 0,
      mk_tensor kTfLiteUInt8 [1, 1] [3] 0 0]"

definition unit_outputs :: "TfLiteTensor list" where
  \<comment> \<open>one box from (0, 0) to (2, 1), score 255 / 256, class 3\<close>
  "unit_outputs =
     [mk_tensor kTfLiteUInt8 [1, 1, 4] [0, 0, 8, 4] (1 / 4) 0,
      mk_tensor kTfLiteUInt8 [1, 1] [255] (1 / 256) 0,
      mk_tensor kTfLiteUInt8 [1, 1] [3] 0 0]"

definition float_outputs :: "TfLiteTensor list" where
  \<comment> \<open>float tensors: the box (0, 0, 2, 2) as four binary32 values, the score 1.0, the class 3.0\<close>
  "float_outputs =
     [mk_tensor kTfLiteFloat32 [1, 1, 4]
        [0, 0, 0, 0,  0, 0, 0, 0,  0, 0, 0, 64,  0, 0, 0, 64] 0 0,
      mk_tensor kTfLiteFloat32 [1, 1] [0, 0, 128, 63] 0 0,
      mk_tensor kTfLiteFloat32 [1, 1] [0, 0, 64, 64] 0 0]"

definition example_candidates :: "DetectionResult list" where
  \<comment> \<open>the second suppresses the first; three of the four have the same confidence\<close>
  "example_candidates =
     [\<lparr>id' = 1, box = \<lparr>left = 0, right = 10, top' = 0, bottom = 10\<rparr>, confidence = 1 / 2\<rparr>,
      \<lparr>id' = 1, box = \<lparr>left = 0, right = 10, top' = 0, bottom = 8\<rparr>, confidence = 3 / 4\<rparr>,
      \<lparr>id' = 2, box = \<lparr>left = 0, right = 10, top' = 0, bottom = 10\<rparr>, confidence = 1 / 2\<rparr>,
      \<lparr>id' = 1, box = \<lparr>left = 20, right = 30, top' = 0, bottom = 10\<rparr>, confidence = 1 / 2\<rparr>]"

definition example_sorted :: "DetectionResult list" where
  \<comment> \<open>the same candidates by decreasing confidence, the equal ones not in their order of emission\<close>
  "example_sorted =
     [\<lparr>id' = 1, box = \<lparr>left = 0, right = 10, top' = 0, bottom = 8\<rparr>, confidence = 3 / 4\<rparr>,
      \<lparr>id' = 1, box = \<lparr>left = 20, right = 30, top' = 0, bottom = 10\<rparr>, confidence = 1 / 2\<rparr>,
      \<lparr>id' = 2, box = \<lparr>left = 0, right = 10, top' = 0, bottom = 10\<rparr>, confidence = 1 / 2\<rparr>,
      \<lparr>id' = 1, box = \<lparr>left = 0, right = 10, top' = 0, bottom = 10\<rparr>, confidence = 1 / 2\<rparr>]"

definition three_overlapping :: "DetectionResult list" where
  \<comment> \<open>one box three times: class 1 twice, then class 2\<close>
  "three_overlapping =
     [\<lparr>id' = 1, box = \<lparr>left = 0, right = 10, top' = 0, bottom = 10\<rparr>, confidence = 9 / 10\<rparr>,
      \<lparr>id' = 1, box = \<lparr>left = 0, right = 10, top' = 0, bottom = 10\<rparr>, confidence = 8 / 10\<rparr>,
      \<lparr>id' = 2, box = \<lparr>left = 0, right = 10, top' = 0, bottom = 10\<rparr>, confidence = 7 / 10\<rparr>]"

definition tied :: "int \<Rightarrow> DetectionResult" where
  \<comment> \<open>candidates of one box and one confidence, each of its own class\<close>
  "tied k = \<lparr>id' = k, box = \<lparr>left = 0, right = 10, top' = 0, bottom = 10\<rparr>, confidence = 1 / 2\<rparr>"

text \<open>
  A library that does with 17 candidates of one confidence what \<^verbatim>\<open>std::sort\<close> of the
  GNU C++ library does with them: the partition of its first round swaps the first
  candidate with the middle one and then reverses the other sixteen, and the insertion
  sort that follows moves nothing. Every other list it sorts by insertion, as the GNU
  library does with up to 16 candidates.
\<close>

definition gnu_sort :: sort_choice where
  "gnu_sort candidates =
     (if length candidates = 17 \<and>
         list_all (\<lambda>d. confidence d = confidence (hd candidates)) candidates
      then (candidates ! 8) # rev (drop 9 candidates) @
           (candidates ! 0) # rev (take 7 (drop 1 candidates))
      else insertion_sort candidates)"

section \<open>Accuracy of the rounding to binary32\<close>

lemma bit_length_bounds:
  "0 < n \<Longrightarrow> 0 < bit_length n \<and> 2 ^ nat (bit_length n - 1) \<le> n \<and> n < 2 ^ nat (bit_length n)"
proof (induction n rule: bit_length.induct)
  case (1 n)
  show ?case
  proof (cases "n = 1")
    case True
    have "bit_length 0 = 0" by (simp add: bit_length.simps)
    then have "bit_length 1 = 1" by (subst bit_length.simps) simp
    with True show ?thesis by simp
  next
    case False
    with "1.prems" have pos: "0 < n div 2" by simp
    let ?b = "bit_length (n div 2)"
    from "1.IH" [OF "1.prems" pos] have b: "0 < ?b" "2 ^ nat (?b - 1) \<le> n div 2" "n div 2 < 2 ^ nat ?b"
      by simp_all
    have eq: "bit_length n = ?b + 1"
      using "1.prems" by (subst bit_length.simps) simp
    have "nat ?b = Suc (nat (?b - 1))" using b(1) by simp
    then have "(2::int) ^ nat ?b = 2 * 2 ^ nat (?b - 1)" by simp
    then have lo: "2 ^ nat ?b \<le> n" using b(2) by simp
    have "nat (?b + 1) = Suc (nat ?b)" using b(1) by simp
    then have "(2::int) ^ nat (?b + 1) = 2 * 2 ^ nat ?b" by simp
    then have hi: "n < 2 ^ nat (?b + 1)" using b(3) by simp
    show ?thesis using b(1) lo hi by (simp add: eq)
  qed
qed

lemma f32_expo_bounds:
  assumes "0 < x"
  shows "2 powi (f32_expo x) \<le> x \<and> x < 2 powi (f32_expo x + 1)"
proof -
  obtain p q where pq: "quotient_of x = (p, q)" by (cases "quotient_of x") auto
  have q: "0 < q" using quotient_of_denom_pos [OF pq] .
  have x: "x = of_int p / of_int q" using quotient_of_div [OF pq] .
  have p: "0 < p" using assms q x by (simp add: zero_less_divide_iff)
  let ?a = "bit_length p" and ?b = "bit_length q"
  note A = bit_length_bounds [OF p] and B = bit_length_bounds [OF q]
  have pa: "(of_int p :: rat) < 2 powi ?a" "2 powi (?a - 1) \<le> (of_int p :: rat)"
    using A by (simp_all add: power_int_def)
  have qb: "(of_int q :: rat) < 2 powi ?b" "2 powi (?b - 1) \<le> (of_int q :: rat)"
    using B by (simp_all add: power_int_def)
  have pos: "(0::rat) < 2 powi (?b - 1)" "(0::rat) < 2 powi ?b" "(0::rat) < 2 powi ?a"
    by simp_all
  have "x < 2 powi ?a / 2 powi (?b - 1)"
    unfolding x using pa(1) qb(2) pos(1) p q
    by (intro frac_less) simp_all
  also have "\<dots> = 2 powi (?a - (?b - 1))"
    by (simp add: power_int_diff)
  finally have up: "x < 2 powi (?a - ?b + 1)"
    by (simp add: algebra_simps)
  have "2 powi (?a - 1) / 2 powi ?b < x"
    unfolding x using pa(2) qb(1) pos q
    by (intro frac_less2) simp_all
  moreover have "2 powi (?a - 1) / 2 powi ?b = (2::rat) powi (?a - 1 - ?b)"
    by (simp add: power_int_diff)
  ultimately have lo: "2 powi (?a - ?b - 1) < x"
    by (simp add: algebra_simps)
  show ?thesis
  proof (cases "2 powi (?a - ?b) \<le> x")
    case True
    then have "f32_expo x = ?a - ?b" using assms p by (simp add: f32_expo_def pq Let_def)
    with True up show ?thesis by simp
  next
    case False
    then have "f32_expo x = ?a - ?b - 1" using assms p by (simp add: f32_expo_def pq Let_def)
    with False lo show ?thesis by simp
  qed
qed


lemma round_half_even_error: "\<bar>of_int (round_half_even y) - y\<bar> \<le> 1 / 2"
proof -
  have "of_int \<lfloor>y\<rfloor> \<le> y" "y < of_int \<lfloor>y\<rfloor> + 1" by linarith+
  then show ?thesis
    unfolding round_half_even_def Let_def
    by (simp add: abs_if field_simps) linarith
qed

lemma f32_round_error:
  assumes "2 powi (- 126) \<le> x"
  shows "\<bar>f32_round x - x\<bar> \<le> x * 2 powi (- 24)"
proof -
  have "(0::rat) < 2 powi (- 126)" by simp
  with assms have pos: "0 < x" by linarith
  note E = f32_expo_bounds [OF pos]
  let ?e = "f32_expo x"
  have "(2::rat) powi (- 126) < 2 powi (?e + 1)" using assms E by linarith
  then have "- 126 < ?e + 1"
    using power_int_increasing [of "?e + 1" "- 126" "2::rat"] by (cases "- 126 < ?e + 1") auto
  then have mx: "max ?e (- 126) = ?e" by simp
  let ?q = "(2::rat) powi (?e - 23)"
  have q: "0 < ?q" by simp
  have fr: "f32_round x = of_int (round_half_even (x / ?q)) * ?q"
    using pos mx by (simp add: f32_round_def Let_def)
  have "(of_int (round_half_even (x / ?q)) - x / ?q) * ?q = f32_round x - x"
    using q by (simp add: fr left_diff_distrib)
  then have "\<bar>f32_round x - x\<bar> = \<bar>(of_int (round_half_even (x / ?q)) - x / ?q) * ?q\<bar>"
    by simp
  also have "\<dots> = \<bar>of_int (round_half_even (x / ?q)) - x / ?q\<bar> * ?q"
    using q by (simp only: abs_mult abs_of_pos)
  also have "\<dots> \<le> 1 / 2 * ?q"
    using round_half_even_error [of "x / ?q"] q by (intro mult_right_mono) simp_all
  also have "\<dots> = 2 powi ?e * 2 powi (- 24)"
    by (simp add: power_int_diff power_int_minus field_simps)
  also have "\<dots> \<le> x * 2 powi (- 24)"
    using E by (intro mult_right_mono) simp_all
  finally show ?thesis .
qed


lemma f32_round_bounds:
  assumes "2 powi (- 126) \<le> x"
  shows "x * (16777215 / 16777216) \<le> f32_round x" and "f32_round x \<le> x * (16777217 / 16777216)"
proof -
  have "(2::rat) powi (- 24) = 1 / 2 powi 24"
    by (rule power_int_minus_divide)
  then have u: "(2::rat) powi (- 24) = 1 / 16777216"
    by simp
  from f32_round_error [OF assms] have "\<bar>f32_round x - x\<bar> \<le> x * (1 / 16777216)"
    by (simp only: u)
  then have "f32_round x - x \<le> x * (1 / 16777216)" "x - f32_round x \<le> x * (1 / 16777216)"
    by linarith+
  then show "x * (16777215 / 16777216) \<le> f32_round x" "f32_round x \<le> x * (16777217 / 16777216)"
    by linarith+
qed

lemma below_normal_range: "(2::rat) powi (- 126) \<le> 1 / 2 ^ 40"
proof -
  have "(2::rat) powi (- 126) \<le> 2 powi (- 40)"
    by (rule power_int_increasing) simp_all
  moreover have "(2::rat) powi (- 40) = 1 / 2 powi 40"
    by (rule power_int_minus_divide)
  ultimately show ?thesis by simp
qed

lemma letterbox_product_bounds:
  assumes "1 \<le> w" "w \<le> m" "m < 2 ^ 31"
  shows "0 \<le> f32_mul (f32_of_int w) (f32_div (f32_of_int 640) (f32_of_int m))"
    and "of_int w / of_int m *
           (640 * (16777215 / 16777216) * (16777215 / 16777216) * (16777215 / 16777216) /
            (16777217 / 16777216))
         \<le> f32_mul (f32_of_int w) (f32_div (f32_of_int 640) (f32_of_int m))"
    and "f32_mul (f32_of_int w) (f32_div (f32_of_int 640) (f32_of_int m))
         \<le> of_int w / of_int m *
           (640 * (16777217 / 16777216) * (16777217 / 16777216) * (16777217 / 16777216) /
            (16777215 / 16777216))"
proof -
  let ?U = "16777217 / 16777216 :: rat" and ?L = "16777215 / 16777216 :: rat"
  let ?fw = "f32_of_int w" and ?fm = "f32_of_int m"
  have w1: "(1::rat) \<le> of_int w" and m1: "(1::rat) \<le> of_int m" and wm: "(of_int w :: rat) \<le> of_int m"
    and mb: "(of_int m :: rat) \<le> 2 ^ 31"
  proof -
    from assms(3) have "m \<le> 2 ^ 31" by simp
    then have "(of_int m :: rat) \<le> of_int (2 ^ 31)" by (simp only: of_int_le_iff)
    then show "(of_int m :: rat) \<le> 2 ^ 31" by simp
    from assms(1,2) have "1 \<le> m" by simp
    with assms(1,2) show "(1::rat) \<le> of_int w" "(1::rat) \<le> of_int m" "(of_int w :: rat) \<le> of_int m"
      by simp_all
  qed
  have nw: "2 powi (- 126) \<le> (of_int w :: rat)" and nm: "2 powi (- 126) \<le> (of_int m :: rat)"
  proof -
    have "(1::rat) / 2 ^ 40 \<le> 1" by simp
    with below_normal_range have "(2::rat) powi (- 126) \<le> 1" by (rule order_trans)
    then show "2 powi (- 126) \<le> (of_int w :: rat)" "2 powi (- 126) \<le> (of_int m :: rat)"
      using w1 m1 by (blast intro: order_trans)+
  qed
  have fw: "of_int w * ?L \<le> ?fw" "?fw \<le> of_int w * ?U"
    unfolding f32_of_int_def using f32_round_bounds [OF nw] by simp_all
  have fm: "of_int m * ?L \<le> ?fm" "?fm \<le> of_int m * ?U"
    unfolding f32_of_int_def using f32_round_bounds [OF nm] by simp_all
  have fw_pos: "1 / 2 \<le> ?fw" using fw(1) w1 by simp
  have fm_pos: "1 / 2 \<le> ?fm" using fm(1) m1 by simp
  have fm_up: "?fm \<le> 2 ^ 32" using fm(2) mb by simp
  have f640: "f32_of_int 640 = 640" by code_simp
  let ?d = "640 / ?fm"
  have d_lo: "640 / 2 ^ 32 \<le> ?d"
    using fm_up fm_pos by (intro divide_left_mono) simp_all
  have d_up: "?d \<le> 640 / (of_int m * ?L)"
    using fm(1) m1 by (intro divide_left_mono) simp_all
  have nd: "2 powi (- 126) \<le> ?d"
  proof -
    have "(1::rat) / 2 ^ 40 \<le> 640 / 2 ^ 32" by simp
    with below_normal_range d_lo show ?thesis by (blast intro: order_trans)
  qed
  let ?s = "f32_div (f32_of_int 640) ?fm"
  have s: "?d * ?L \<le> ?s" "?s \<le> ?d * ?U"
    unfolding f32_div_def f640 using f32_round_bounds [OF nd] by simp_all
  have s_lo: "1 / 2 ^ 27 \<le> ?s"
    using s(1) d_lo by simp
  have s_up: "?s \<le> 640 / (of_int m * ?L) * ?U"
    using s(2) d_up by simp
  let ?prod = "?fw * ?s"
  have prod_lo: "1 / 2 ^ 28 \<le> ?prod"
  proof -
    have "1 / 2 * (1 / 2 ^ 27) \<le> ?fw * ?s"
      using fw_pos s_lo by (intro mult_mono) simp_all
    then show ?thesis by simp
  qed
  have np: "2 powi (- 126) \<le> ?prod"
  proof -
    have "(1::rat) / 2 ^ 40 \<le> 1 / 2 ^ 28" by simp
    with below_normal_range prod_lo show ?thesis by (blast intro: order_trans)
  qed
  have prod_up: "?prod \<le> (of_int w * ?U) * (640 / (of_int m * ?L) * ?U)"
    using fw(2) s_up fw_pos s_lo w1 by (intro mult_mono) simp_all
  let ?p = "f32_mul ?fw ?s"
  have p: "?prod * ?L \<le> ?p" "?p \<le> ?prod * ?U"
    unfolding f32_mul_def using f32_round_bounds [OF np] by simp_all
  have p_pos: "0 \<le> ?p"
  proof -
    have "0 \<le> ?prod" using prod_lo by (rule order_trans [rotated]) simp
    then have "0 \<le> ?prod * ?L" by simp
    with p(1) show ?thesis by linarith
  qed
  show "0 \<le> ?p" by (rule p_pos)
  have "?p \<le> (of_int w * ?U) * (640 / (of_int m * ?L) * ?U) * ?U"
    using p(2) prod_up by simp
  also have "\<dots> = of_int w / of_int m * (640 * ?U * ?U * ?U / ?L)"
    using m1 by (simp add: field_simps)
  finally show "?p \<le> of_int w / of_int m * (640 * ?U * ?U * ?U / ?L)" .
  have d_lo2: "640 / (of_int m * ?U) \<le> ?d"
    using fm(2) fm_pos by (intro divide_left_mono) simp_all
  have s_lo2: "640 / (of_int m * ?U) * ?L \<le> ?s"
    using s(1) d_lo2 by simp
  have "(of_int w * ?L) * (640 / (of_int m * ?U) * ?L) \<le> ?prod"
    using fw(1) s_lo2 w1 m1 by (intro mult_mono) simp_all
  then have "(of_int w * ?L) * (640 / (of_int m * ?U) * ?L) * ?L \<le> ?p"
    using p(1) by simp
  moreover have "(of_int w * ?L) * (640 / (of_int m * ?U) * ?L) * ?L =
      of_int w / of_int m * (640 * ?L * ?L * ?L / ?U)"
    using m1 by (simp add: field_simps)
  ultimately show "of_int w / of_int m * (640 * ?L * ?L * ?L / ?U) \<le> ?p"
    by simp
qed

lemma letterbox_fits_640:
  assumes "1 \<le> w" "w \<le> m" "m < 2 ^ 31"
  shows "int_of_float (f32_mul (f32_of_int w) (f32_div (f32_of_int 640) (f32_of_int m))) \<le> 640"
proof -
  let ?p = "f32_mul (f32_of_int w) (f32_div (f32_of_int 640) (f32_of_int m))"
  let ?c = "640 * (16777217 / 16777216) * (16777217 / 16777216) * (16777217 / 16777216) /
            (16777215 / 16777216) :: rat"
  have "(0::rat) < of_int m" and "(of_int w :: rat) \<le> of_int m"
    using assms by simp_all
  then have "(of_int w :: rat) / of_int m \<le> 1" by simp
  then have "of_int w / of_int m * ?c \<le> 1 * ?c"
    by (intro mult_right_mono) simp_all
  also have "\<dots> < 641" by simp
  finally have "?p < 641"
    using letterbox_product_bounds(3) [OF assms] by linarith
  then have "\<lfloor>?p\<rfloor> < 641" by (simp add: floor_less_iff)
  then show ?thesis
    using letterbox_product_bounds(1) [OF assms] by (simp add: int_of_float_def)
qed

lemma letterbox_nonempty_640:
  assumes "1 \<le> w" "w \<le> m" "m < 2 ^ 31" "m \<le> 320 * w"
  shows "1 \<le> int_of_float (f32_mul (f32_of_int w) (f32_div (f32_of_int 640) (f32_of_int m)))"
proof -
  let ?p = "f32_mul (f32_of_int w) (f32_div (f32_of_int 640) (f32_of_int m))"
  let ?c = "640 * (16777215 / 16777216) * (16777215 / 16777216) * (16777215 / 16777216) /
            (16777217 / 16777216) :: rat"
  have m: "(0::rat) < of_int m" using assms by simp
  have "(of_int m :: rat) \<le> of_int (320 * w)"
    using assms(4) by (simp only: of_int_le_iff)
  then have "(of_int m :: rat) \<le> 320 * of_int w" by simp
  then have "(1::rat) / 320 \<le> of_int w / of_int m"
    using m by (simp add: field_simps)
  then have r: "1 / 320 * ?c \<le> of_int w / of_int m * ?c"
    by (intro mult_right_mono) simp_all
  have "(1::rat) \<le> 1 / 320 * ?c" by simp
  also note r
  also have "of_int w / of_int m * ?c \<le> ?p"
    by (rule letterbox_product_bounds(2) [OF assms(1-3)])
  finally have "1 \<le> ?p" .
  then have "1 \<le> \<lfloor>?p\<rfloor>" by (simp add: le_floor_iff)
  then show ?thesis
    using letterbox_product_bounds(1) [OF assms(1-3)] by (simp add: int_of_float_def)
qed



text \<open>
  The two divisions of the source, in \<^verbatim>\<open>calculateIoU\<close> and in \<^verbatim>\<open>letterbox\<close>, have a
  positive divisor where the model reaches them: the union of two boxes that
  overlap, and the larger side of an image that is not empty.
\<close>

lemma f32_of_int_positive:
  assumes "1 \<le> n"
  shows "0 < f32_of_int n"
proof -
  have one: "(1::rat) \<le> of_int n" using assms by simp
  have "(1::rat) / 2 ^ 40 \<le> 1" by simp
  with below_normal_range have "(2::rat) powi (- 126) \<le> 1" by (rule order_trans)
  with one have "2 powi (- 126) \<le> (of_int n :: rat)" by linarith
  from f32_round_bounds(1) [OF this] have "of_int n * (16777215 / 16777216) \<le> f32_of_int n"
    by (simp add: f32_of_int_def)
  moreover have "(0::rat) < of_int n * (16777215 / 16777216)" using one by simp
  ultimately show ?thesis by linarith
qed

lemma calculateIoU_denominator:
  assumes "\<not> (min (right box1) (right box2) \<le> max (left box1) (left box2) \<or>
              min (bottom box1) (bottom box2) \<le> max (top' box1) (top' box2))"
  shows "0 < f32_of_int ((right box1 - left box1) * (bottom box1 - top' box1) +
              (right box2 - left box2) * (bottom box2 - top' box2) -
              (min (right box1) (right box2) - max (left box1) (left box2)) *
              (min (bottom box1) (bottom box2) - max (top' box1) (top' box2)))"
proof -
  let ?w = "min (right box1) (right box2) - max (left box1) (left box2)"
  let ?h = "min (bottom box1) (bottom box2) - max (top' box1) (top' box2)"
  have w: "0 < ?w" "?w \<le> right box1 - left box1" "?w \<le> right box2 - left box2"
    and h: "0 < ?h" "?h \<le> bottom box1 - top' box1" "?h \<le> bottom box2 - top' box2"
    using assms by auto
  have "?w * ?h \<le> (right box1 - left box1) * (bottom box1 - top' box1)"
    using w h by (intro mult_mono) simp_all
  moreover have "1 * 1 \<le> (right box2 - left box2) * (bottom box2 - top' box2)"
    using w h by (intro mult_mono) simp_all
  ultimately show ?thesis
    by (intro f32_of_int_positive) simp
qed

section \<open>Properties of the letterbox\<close>

lemma zeros_pixel:
  "r < nat h \<Longrightarrow> c < nat w \<Longrightarrow> pixels (zeros w h ch) ! r ! c = replicate ch 0"
  by (simp add: zeros_def)

lemma copyTo_roi_Inr:
  assumes "copyTo_roi src dst x y w h = Inr out"
  shows "rows out = rows dst" and "cols out = cols dst" and "channels out = channels dst"
    and "length (pixels out) = nat (rows dst)"
    and "r < nat (rows dst) \<Longrightarrow> length (pixels out ! r) = nat (cols dst)"
    and "r < nat (rows dst) \<Longrightarrow> c < nat (cols dst) \<Longrightarrow>
         pixels out ! r ! c =
           (if y \<le> int r \<and> int r < y + h \<and> x \<le> int c \<and> int c < x + w
            then pixels src ! (r - nat y) ! (c - nat x) else pixels dst ! r ! c)"
  using assms by (auto simp: copyTo_roi_def split: if_splits)

lemma letterbox_Inr_shape:
  assumes "letterbox interp img t = Inr out"
  shows "rows out = t" and "cols out = t" and "channels out = channels img"
    and "length (pixels out) = nat t"
    and "r < nat t \<Longrightarrow> length (pixels out ! r) = nat t"
    and "r < nat t \<Longrightarrow> c < nat t \<Longrightarrow> \<not> in_paste img t r c \<Longrightarrow>
         pixels out ! r ! c = replicate (channels img) 0"
proof -
  from assms obtain resized where
    cp: "copyTo_roi resized (zeros t t (channels img)) (letterbox_left img t) (letterbox_top img t)
           (letterbox_new_w img t) (letterbox_new_h img t) = Inr out"
    by (auto simp: letterbox_def Let_def split: if_splits sum.splits)
  have z: "rows (zeros t t (channels img)) = t" "cols (zeros t t (channels img)) = t"
    "channels (zeros t t (channels img)) = channels img"
    by (simp_all add: zeros_def)
  show "rows out = t" "cols out = t" "channels out = channels img" "length (pixels out) = nat t"
    using copyTo_roi_Inr(1-4) [OF cp] z by simp_all
  show "r < nat t \<Longrightarrow> length (pixels out ! r) = nat t"
    using copyTo_roi_Inr(5) [OF cp, of r] z by simp
  show "r < nat t \<Longrightarrow> c < nat t \<Longrightarrow> \<not> in_paste img t r c \<Longrightarrow>
         pixels out ! r ! c = replicate (channels img) 0"
    using copyTo_roi_Inr(6) [OF cp, of r c] z
    by (auto simp: in_paste_def zeros_pixel)
qed

lemma sdiv_2_nonneg: "0 \<le> a \<Longrightarrow> (a :: int) sdiv 2 = a div 2"
  by (simp add: signed_divide_int_def sgn_if)

lemma cv_resize_Inr:
  assumes "0 < rows src" "0 < cols src" "0 < w" "0 < h"
  shows "\<exists>resized. cv_resize interp src w h = Inr resized \<and> rows resized = h \<and> cols resized = w \<and>
           channels resized = channels src \<and>
           (\<forall>r < nat h. \<forall>c < nat w. pixels resized ! r ! c =
               map (interp src w h r c) [0..<channels src])"
  using assms by (simp add: cv_resize_def)

lemma letterbox_returns:
  assumes "0 < rows img" "0 < cols img"
    and "0 < letterbox_new_w img t" "letterbox_new_w img t \<le> t"
    and "0 < letterbox_new_h img t" "letterbox_new_h img t \<le> t"
  shows "\<exists>resized out.
           cv_resize interp img (letterbox_new_w img t) (letterbox_new_h img t) = Inr resized \<and>
           letterbox interp img t = Inr out \<and>
           (\<forall>r < nat t. \<forall>c < nat t. in_paste img t r c \<longrightarrow>
              pixels out ! r ! c =
                pixels resized ! (r - nat (letterbox_top img t)) ! (c - nat (letterbox_left img t)))"
proof -
  let ?w = "letterbox_new_w img t" and ?h = "letterbox_new_h img t"
  let ?x = "letterbox_left img t" and ?y = "letterbox_top img t"
  obtain resized where rs: "cv_resize interp img ?w ?h = Inr resized"
    using cv_resize_Inr [OF assms(1,2,3,5)] by blast
  have x: "0 \<le> ?x" "?x + ?w \<le> t" and y: "0 \<le> ?y" "?y + ?h \<le> t"
    using assms(4,6) by (simp_all add: letterbox_left_def letterbox_top_def sdiv_2_nonneg)
  have roi: "0 \<le> ?x \<and> 0 \<le> ?w \<and> ?x + ?w \<le> cols (zeros t t (channels img)) \<and>
             0 \<le> ?y \<and> 0 \<le> ?h \<and> ?y + ?h \<le> rows (zeros t t (channels img))"
    using x y assms(3,5) by (simp add: zeros_def)
  then obtain out where cp: "copyTo_roi resized (zeros t t (channels img)) ?x ?y ?w ?h = Inr out"
    by (simp add: copyTo_roi_def)
  have nz: "max (rows img) (cols img) \<noteq> 0" using assms(1) by simp
  have lb: "letterbox interp img t = Inr out"
    using rs cp nz by (simp add: letterbox_def Let_def)
  have "\<forall>r < nat t. \<forall>c < nat t. in_paste img t r c \<longrightarrow>
              pixels out ! r ! c = pixels resized ! (r - nat ?y) ! (c - nat ?x)"
    using copyTo_roi_Inr(6) [OF cp] by (simp add: zeros_def in_paste_def)
  with rs lb show ?thesis by blast
qed

text \<open>
  C3, as the code has it. \<open>letterbox\<close> computes the scale as the \<^verbatim>\<open>float\<close> quotient of
  \<open>target_size\<close> and the larger of height and width, and the new width and height as
  the \<^verbatim>\<open>float\<close> products of width and height with the scale, converted to \<^verbatim>\<open>int\<close>:
  the fraction is discarded, not rounded. When image and resized size are not empty and
  the resized size fits, the result is a canvas of \<open>target_size\<close> rows and columns
  that holds the resized image from row \<open>(target_size - new_h) / 2\<close> and column
  \<open>(target_size - new_w) / 2\<close> on, and zeros elsewhere.
\<close>

theorem letterbox_truncates:
  assumes "0 < rows img" and "0 < cols img"
    and "0 < letterbox_new_w img t" and "letterbox_new_w img t \<le> t"
    and "0 < letterbox_new_h img t" and "letterbox_new_h img t \<le> t"
  shows "letterbox_new_w img t =
           int_of_float (f32_mul (f32_of_int (cols img))
             (f32_div (f32_of_int t) (f32_of_int (max (rows img) (cols img))))) \<and>
         letterbox_new_h img t =
           int_of_float (f32_mul (f32_of_int (rows img))
             (f32_div (f32_of_int t) (f32_of_int (max (rows img) (cols img))))) \<and>
         letterbox_top img t = (t - letterbox_new_h img t) div 2 \<and>
         letterbox_left img t = (t - letterbox_new_w img t) div 2 \<and>
         (\<exists>resized out.
            cv_resize interp img (letterbox_new_w img t) (letterbox_new_h img t) = Inr resized \<and>
            rows resized = letterbox_new_h img t \<and> cols resized = letterbox_new_w img t \<and>
            letterbox interp img t = Inr out \<and>
            rows out = t \<and> cols out = t \<and> channels out = channels img \<and>
            (\<forall>r < nat t. \<forall>c < nat t.
               pixels out ! r ! c =
                 (if in_paste img t r c
                  then pixels resized ! (r - nat (letterbox_top img t)) ! (c - nat (letterbox_left img t))
                  else replicate (channels img) 0)))"
proof -
  obtain resized out where
    rs: "cv_resize interp img (letterbox_new_w img t) (letterbox_new_h img t) = Inr resized"
    and lb: "letterbox interp img t = Inr out"
    and inside: "\<forall>r < nat t. \<forall>c < nat t. in_paste img t r c \<longrightarrow>
              pixels out ! r ! c =
                pixels resized ! (r - nat (letterbox_top img t)) ! (c - nat (letterbox_left img t))"
    using letterbox_returns [OF assms] by blast
  have dims: "rows resized = letterbox_new_h img t" "cols resized = letterbox_new_w img t"
    using rs cv_resize_Inr [OF assms(1,2,3,5), of interp] by auto
  have px: "\<forall>r < nat t. \<forall>c < nat t.
               pixels out ! r ! c =
                 (if in_paste img t r c
                  then pixels resized ! (r - nat (letterbox_top img t)) ! (c - nat (letterbox_left img t))
                  else replicate (channels img) 0)"
    using inside letterbox_Inr_shape(6) [OF lb] by simp
  have "letterbox_top img t = (t - letterbox_new_h img t) div 2"
    and "letterbox_left img t = (t - letterbox_new_w img t) div 2"
    using assms(4,6) by (simp_all add: letterbox_top_def letterbox_left_def sdiv_2_nonneg)
  moreover have "letterbox_new_w img t =
           int_of_float (f32_mul (f32_of_int (cols img))
             (f32_div (f32_of_int t) (f32_of_int (max (rows img) (cols img)))))"
    and "letterbox_new_h img t =
           int_of_float (f32_mul (f32_of_int (rows img))
             (f32_div (f32_of_int t) (f32_of_int (max (rows img) (cols img)))))"
    by (simp_all add: letterbox_new_w_def letterbox_new_h_def letterbox_scale_def)
  ultimately show ?thesis
    using rs lb dims px letterbox_Inr_shape(1-3) [OF lb] by blast
qed

theorem letterbox_truncates_witness:
  "0 < rows (uniform_mat 3 2) \<and> 0 < cols (uniform_mat 3 2) \<and>
   letterbox_new_w (uniform_mat 3 2) 4 = 2 \<and> letterbox_new_h (uniform_mat 3 2) 4 = 4 \<and>
   letterbox_top (uniform_mat 3 2) 4 = 0 \<and> letterbox_left (uniform_mat 3 2) 4 = 1 \<and>
   (\<exists>out. letterbox nearest (uniform_mat 3 2) 4 = Inr out \<and> rows out = 4 \<and> cols out = 4)"
proof -
  have w: "letterbox_new_w (uniform_mat 3 2) 4 = 2" and h: "letterbox_new_h (uniform_mat 3 2) 4 = 4"
    by code_simp+
  have r: "0 < rows (uniform_mat 3 2)" and c: "0 < cols (uniform_mat 3 2)"
    by (simp_all add: uniform_mat_def)
  have "0 < letterbox_new_w (uniform_mat 3 2) 4" "letterbox_new_w (uniform_mat 3 2) 4 \<le> 4"
    "0 < letterbox_new_h (uniform_mat 3 2) 4" "letterbox_new_h (uniform_mat 3 2) 4 \<le> 4"
    by (simp_all add: w h)
  from letterbox_truncates [OF r c this, of nearest] show ?thesis
    using r c w h by auto
qed

text \<open>
  The claim C3 has \<open>round\<close> where the code discards the fraction. For an image of
  height 3 and width 2 and the target size 4 the scale is the \<^verbatim>\<open>float\<close> nearest to
  4/3 and the product with the width is about 2.67: the new width is 2, and rounding
  would give 3.
\<close>

theorem letterbox_round_counterexample:
  "letterbox_new_w (uniform_mat 3 2) 4 = 2 \<and>
   int_of_float (std_round (f32_mul (f32_of_int (cols (uniform_mat 3 2)))
     (letterbox_scale (uniform_mat 3 2) 4))) = 3 \<and>
   letterbox nearest (uniform_mat 3 2) 4 =
     Inr \<lparr>rows = 4, cols = 4, channels = 3,
          pixels = replicate 4 [[0, 0, 0], [10, 20, 30], [10, 20, 30], [0, 0, 0]]\<rparr>"
  by code_simp

text \<open>
  The same happens where the exact product is a whole number: for a square image of
  133 rows the \<^verbatim>\<open>float\<close> product of 133 and the scale is just below 640, and the
  resized image has 639 rows and columns.
\<close>

lemma letterbox_square_133:
  "letterbox_new_w (uniform_mat 133 133) 640 = 639 \<and>
   letterbox_new_h (uniform_mat 133 133) 640 = 639"
  by code_simp

lemma letterbox_raises:
  assumes "0 < rows img" and "letterbox_new_w img t \<le> 0 \<or> letterbox_new_h img t \<le> 0"
  shows "letterbox interp img t = Inl CvError"
proof -
  have "max (rows img) (cols img) \<noteq> 0" using assms(1) by simp
  moreover have "cv_resize interp img (letterbox_new_w img t) (letterbox_new_h img t) = Inl CvError"
    using assms(2) by (auto simp: cv_resize_def)
  ultimately show ?thesis by (simp add: letterbox_def Let_def)
qed

lemma letterbox_320_640:
  assumes "rows img = 320" and "cols img = 640"
  shows "letterbox_scale img 640 = 1" and "letterbox_new_w img 640 = 640"
    and "letterbox_new_h img 640 = 320" and "letterbox_top img 640 = 160"
    and "letterbox_left img 640 = 0"
proof -
  have s: "f32_div (f32_of_int 640) (f32_of_int (max 320 640)) = 1"
    by code_simp
  have w: "int_of_float (f32_mul (f32_of_int 640) 1) = 640"
    and h: "int_of_float (f32_mul (f32_of_int 320) 1) = 320"
    by code_simp+
  show sc: "letterbox_scale img 640 = 1"
    using assms s by (simp add: letterbox_scale_def)
  show nw: "letterbox_new_w img 640 = 640" and nh: "letterbox_new_h img 640 = 320"
    using assms w h by (simp_all add: letterbox_new_w_def letterbox_new_h_def sc)
  show "letterbox_top img 640 = 160" and "letterbox_left img 640 = 0"
    by (simp_all add: letterbox_top_def letterbox_left_def nw nh sdiv_2_nonneg)
qed

text \<open>
  The claim C4 promises a canvas of 640 rows and columns for every height and width. For
  an image of 1 row and 641 columns the scale is \<open>640 / 641\<close>, the new height is the
  product of 1 and the scale with its fraction discarded, which is 0, and
  \<^verbatim>\<open>cv::resize\<close> raises: \<open>letterbox\<close> returns no image.
\<close>

theorem letterbox_flat_counterexample:
  "letterbox_new_w (uniform_mat 1 641) 640 = 640 \<and>
   letterbox_new_h (uniform_mat 1 641) 640 = 0 \<and>
   letterbox nearest (uniform_mat 1 641) 640 = Inl CvError"
  by code_simp

text \<open>
  C4, as the code has it. Let the image have between 1 and \<open>2\<^sup>3\<^sup>1 - 1\<close> rows and
  columns. If the new width and the new height are at least 1, \<open>letterbox\<close> with the
  target size 640 returns an image of 640 rows, 640 columns and the channels of the
  input, every pixel of which is the pixel of the resized image in the rectangle of the
  paste, and zero outside of it; if one of them is 0, \<^verbatim>\<open>cv::resize\<close> raises and
  \<open>letterbox\<close> returns no image. New width and new height are at least 1 whenever the
  longer side is at most 320 times the shorter one. Whatever \<open>letterbox\<close> returns, for
  any image, has 640 rows and columns, the channels of the input, and zeros outside the
  rectangle of the paste. For an image of 320 rows and 640 columns the scale is 1, the
  image is resized to 640 columns and 320 rows, and the image returned holds the
  resized image in its rows 160 to 479 (top margin 160, left margin 0) and zeros in
  every other row.
\<close>

theorem letterbox_640:
  "(0 < rows img \<and> rows img < 2 ^ 31 \<and> 0 < cols img \<and> cols img < 2 ^ 31 \<and>
    0 < letterbox_new_w img 640 \<and> 0 < letterbox_new_h img 640 \<longrightarrow>
      (\<exists>resized out.
         cv_resize interp img (letterbox_new_w img 640) (letterbox_new_h img 640) = Inr resized \<and>
         rows resized = letterbox_new_h img 640 \<and> cols resized = letterbox_new_w img 640 \<and>
         letterbox interp img 640 = Inr out \<and>
         rows out = 640 \<and> cols out = 640 \<and> channels out = channels img \<and>
         length (pixels out) = 640 \<and>
         (\<forall>r < 640. length (pixels out ! r) = 640 \<and>
            (\<forall>c < 640. pixels out ! r ! c =
               (if in_paste img 640 r c
                then pixels resized ! (r - nat (letterbox_top img 640))
                                    ! (c - nat (letterbox_left img 640))
                else replicate (channels img) 0))))) \<and>
   (0 < rows img \<and> rows img < 2 ^ 31 \<and> 0 < cols img \<and> cols img < 2 ^ 31 \<and>
    (letterbox_new_w img 640 \<le> 0 \<or> letterbox_new_h img 640 \<le> 0) \<longrightarrow>
      letterbox interp img 640 = Inl CvError) \<and>
   (0 < rows img \<and> rows img < 2 ^ 31 \<and> 0 < cols img \<and> cols img < 2 ^ 31 \<and>
    max (rows img) (cols img) \<le> 320 * min (rows img) (cols img) \<longrightarrow>
      0 < letterbox_new_w img 640 \<and> 0 < letterbox_new_h img 640) \<and>
   (\<forall>out. letterbox interp img 640 = Inr out \<longrightarrow>
      rows out = 640 \<and> cols out = 640 \<and> channels out = channels img \<and>
      length (pixels out) = 640 \<and>
      (\<forall>r < 640. length (pixels out ! r) = 640 \<and>
         (\<forall>c < 640. \<not> in_paste img 640 r c \<longrightarrow>
            pixels out ! r ! c = replicate (channels img) 0))) \<and>
   (rows img = 320 \<and> cols img = 640 \<longrightarrow>
      letterbox_scale img 640 = 1 \<and>
      (\<exists>resized out.
         cv_resize interp img 640 320 = Inr resized \<and>
         rows resized = 320 \<and> cols resized = 640 \<and>
         letterbox interp img 640 = Inr out \<and>
         rows out = 640 \<and> cols out = 640 \<and> channels out = channels img \<and>
         (\<forall>r < 640. \<forall>c < 640. pixels out ! r ! c =
            (if 160 \<le> r \<and> r < 480 then pixels resized ! (r - 160) ! c
             else replicate (channels img) 0))))"
proof (intro conjI)
  show "0 < rows img \<and> rows img < 2 ^ 31 \<and> 0 < cols img \<and> cols img < 2 ^ 31 \<and>
    0 < letterbox_new_w img 640 \<and> 0 < letterbox_new_h img 640 \<longrightarrow>
      (\<exists>resized out.
         cv_resize interp img (letterbox_new_w img 640) (letterbox_new_h img 640) = Inr resized \<and>
         rows resized = letterbox_new_h img 640 \<and> cols resized = letterbox_new_w img 640 \<and>
         letterbox interp img 640 = Inr out \<and>
         rows out = 640 \<and> cols out = 640 \<and> channels out = channels img \<and>
         length (pixels out) = 640 \<and>
         (\<forall>r < 640. length (pixels out ! r) = 640 \<and>
            (\<forall>c < 640. pixels out ! r ! c =
               (if in_paste img 640 r c
                then pixels resized ! (r - nat (letterbox_top img 640))
                                    ! (c - nat (letterbox_left img 640))
                else replicate (channels img) 0))))"
  proof
    assume a: "0 < rows img \<and> rows img < 2 ^ 31 \<and> 0 < cols img \<and> cols img < 2 ^ 31 \<and>
      0 < letterbox_new_w img 640 \<and> 0 < letterbox_new_h img 640"
    let ?m = "max (rows img) (cols img)"
    have m: "?m < 2 ^ 31" using a by simp
    have fw: "letterbox_new_w img 640 \<le> 640"
      unfolding letterbox_new_w_def letterbox_scale_def
      using a m by (intro letterbox_fits_640) simp_all
    have fh: "letterbox_new_h img 640 \<le> 640"
      unfolding letterbox_new_h_def letterbox_scale_def
      using a m by (intro letterbox_fits_640) simp_all
    obtain resized out where
      rs: "cv_resize interp img (letterbox_new_w img 640) (letterbox_new_h img 640) = Inr resized"
      and lb: "letterbox interp img 640 = Inr out"
      and inside: "\<forall>r < nat 640. \<forall>c < nat 640. in_paste img 640 r c \<longrightarrow>
              pixels out ! r ! c =
                pixels resized ! (r - nat (letterbox_top img 640))
                               ! (c - nat (letterbox_left img 640))"
      using letterbox_returns [of img 640 interp] a fw fh by blast
    have dims: "rows resized = letterbox_new_h img 640" "cols resized = letterbox_new_w img 640"
      using rs a by (auto simp: cv_resize_def split: if_splits)
    have sh: "rows out = 640" "cols out = 640" "channels out = channels img"
      "length (pixels out) = 640"
      using letterbox_Inr_shape(1-4) [OF lb] by simp_all
    have px: "\<forall>r < 640. length (pixels out ! r) = 640 \<and>
            (\<forall>c < 640. pixels out ! r ! c =
               (if in_paste img 640 r c
                then pixels resized ! (r - nat (letterbox_top img 640))
                                    ! (c - nat (letterbox_left img 640))
                else replicate (channels img) 0))"
    proof (intro allI impI conjI)
      fix r :: nat assume r: "r < 640"
      show "length (pixels out ! r) = 640"
        using letterbox_Inr_shape(5) [OF lb, of r] r by simp
      fix c :: nat assume c: "c < 640"
      show "pixels out ! r ! c =
               (if in_paste img 640 r c
                then pixels resized ! (r - nat (letterbox_top img 640))
                                    ! (c - nat (letterbox_left img 640))
                else replicate (channels img) 0)"
        using inside letterbox_Inr_shape(6) [OF lb, of r c] r c by simp
    qed
    from rs dims lb sh px show "\<exists>resized out.
         cv_resize interp img (letterbox_new_w img 640) (letterbox_new_h img 640) = Inr resized \<and>
         rows resized = letterbox_new_h img 640 \<and> cols resized = letterbox_new_w img 640 \<and>
         letterbox interp img 640 = Inr out \<and>
         rows out = 640 \<and> cols out = 640 \<and> channels out = channels img \<and>
         length (pixels out) = 640 \<and>
         (\<forall>r < 640. length (pixels out ! r) = 640 \<and>
            (\<forall>c < 640. pixels out ! r ! c =
               (if in_paste img 640 r c
                then pixels resized ! (r - nat (letterbox_top img 640))
                                    ! (c - nat (letterbox_left img 640))
                else replicate (channels img) 0)))"
      by blast
  qed
next
  show "0 < rows img \<and> rows img < 2 ^ 31 \<and> 0 < cols img \<and> cols img < 2 ^ 31 \<and>
    (letterbox_new_w img 640 \<le> 0 \<or> letterbox_new_h img 640 \<le> 0) \<longrightarrow>
      letterbox interp img 640 = Inl CvError"
    using letterbox_raises [of img 640 interp] by blast
next
  show "0 < rows img \<and> rows img < 2 ^ 31 \<and> 0 < cols img \<and> cols img < 2 ^ 31 \<and>
    max (rows img) (cols img) \<le> 320 * min (rows img) (cols img) \<longrightarrow>
      0 < letterbox_new_w img 640 \<and> 0 < letterbox_new_h img 640"
  proof
    assume a: "0 < rows img \<and> rows img < 2 ^ 31 \<and> 0 < cols img \<and> cols img < 2 ^ 31 \<and>
      max (rows img) (cols img) \<le> 320 * min (rows img) (cols img)"
    let ?m = "max (rows img) (cols img)"
    have m: "?m < 2 ^ 31" using a by simp
    have "320 * min (rows img) (cols img) \<le> 320 * cols img"
      and "320 * min (rows img) (cols img) \<le> 320 * rows img"
      by simp_all
    with a have q: "?m \<le> 320 * cols img" "?m \<le> 320 * rows img"
      by linarith+
    have "1 \<le> letterbox_new_w img 640"
      unfolding letterbox_new_w_def letterbox_scale_def
      using a m q(1) by (intro letterbox_nonempty_640) simp_all
    moreover have "1 \<le> letterbox_new_h img 640"
      unfolding letterbox_new_h_def letterbox_scale_def
      using a m q(2) by (intro letterbox_nonempty_640) simp_all
    ultimately show "0 < letterbox_new_w img 640 \<and> 0 < letterbox_new_h img 640"
      by simp
  qed
next
  show "\<forall>out. letterbox interp img 640 = Inr out \<longrightarrow>
      rows out = 640 \<and> cols out = 640 \<and> channels out = channels img \<and>
      length (pixels out) = 640 \<and>
      (\<forall>r < 640. length (pixels out ! r) = 640 \<and>
         (\<forall>c < 640. \<not> in_paste img 640 r c \<longrightarrow>
            pixels out ! r ! c = replicate (channels img) 0))"
  proof (intro allI impI conjI)
    fix out assume lb: "letterbox interp img 640 = Inr out"
    show "rows out = 640" "cols out = 640" "channels out = channels img"
      "length (pixels out) = 640"
      using letterbox_Inr_shape(1-4) [OF lb] by simp_all
    fix r :: nat assume r: "r < 640"
    show "length (pixels out ! r) = 640"
      using letterbox_Inr_shape(5) [OF lb, of r] r by simp
    fix c :: nat assume "c < 640" and "\<not> in_paste img 640 r c"
    then show "pixels out ! r ! c = replicate (channels img) 0"
      using letterbox_Inr_shape(6) [OF lb, of r c] r by simp
  qed
next
  show "rows img = 320 \<and> cols img = 640 \<longrightarrow>
      letterbox_scale img 640 = 1 \<and>
      (\<exists>resized out.
         cv_resize interp img 640 320 = Inr resized \<and>
         rows resized = 320 \<and> cols resized = 640 \<and>
         letterbox interp img 640 = Inr out \<and>
         rows out = 640 \<and> cols out = 640 \<and> channels out = channels img \<and>
         (\<forall>r < 640. \<forall>c < 640. pixels out ! r ! c =
            (if 160 \<le> r \<and> r < 480 then pixels resized ! (r - 160) ! c
             else replicate (channels img) 0)))"
  proof (intro impI conjI)
    assume a: "rows img = 320 \<and> cols img = 640"
    note v = letterbox_320_640 [of img]
    show "letterbox_scale img 640 = 1" using v(1) a by simp
    have nw: "letterbox_new_w img 640 = 640" and nh: "letterbox_new_h img 640 = 320"
      and tp: "letterbox_top img 640 = 160" and lf: "letterbox_left img 640 = 0"
      using v(2-5) a by simp_all
    obtain resized out where
      rs: "cv_resize interp img 640 320 = Inr resized"
      and lb: "letterbox interp img 640 = Inr out"
      and inside: "\<forall>r < nat 640. \<forall>c < nat 640. in_paste img 640 r c \<longrightarrow>
              pixels out ! r ! c = pixels resized ! (r - nat 160) ! (c - nat 0)"
      using letterbox_returns [of img 640 interp] a nw nh tp lf by auto
    have dims: "rows resized = 320" "cols resized = 640"
      using rs a by (auto simp: cv_resize_def split: if_splits)
    have ip: "in_paste img 640 r c \<longleftrightarrow> 160 \<le> r \<and> r < 480" if "c < 640" for r c :: nat
      using that by (auto simp: in_paste_def nw nh tp lf)
    have px: "\<forall>r < 640. \<forall>c < 640. pixels out ! r ! c =
            (if 160 \<le> r \<and> r < 480 then pixels resized ! (r - 160) ! c
             else replicate (channels img) 0)"
    proof (intro allI impI)
      fix r c :: nat assume r: "r < 640" and c: "c < 640"
      show "pixels out ! r ! c =
            (if 160 \<le> r \<and> r < 480 then pixels resized ! (r - 160) ! c
             else replicate (channels img) 0)"
        using inside letterbox_Inr_shape(6) [OF lb, of r c] r c ip [OF c, of r] by simp
    qed
    from rs dims lb px letterbox_Inr_shape(1-3) [OF lb]
    show "\<exists>resized out.
         cv_resize interp img 640 320 = Inr resized \<and>
         rows resized = 320 \<and> cols resized = 640 \<and>
         letterbox interp img 640 = Inr out \<and>
         rows out = 640 \<and> cols out = 640 \<and> channels out = channels img \<and>
         (\<forall>r < 640. \<forall>c < 640. pixels out ! r ! c =
            (if 160 \<le> r \<and> r < 480 then pixels resized ! (r - 160) ! c
             else replicate (channels img) 0))"
      by blast
  qed
qed

theorem letterbox_640_witness:
  "rows (uniform_mat 320 640) = 320 \<and> cols (uniform_mat 320 640) = 640 \<and>
   max (rows (uniform_mat 320 640)) (cols (uniform_mat 320 640)) \<le>
     320 * min (rows (uniform_mat 320 640)) (cols (uniform_mat 320 640)) \<and>
   letterbox_scale (uniform_mat 320 640) 640 = 1 \<and>
   0 < letterbox_new_w (uniform_mat 320 640) 640 \<and>
   0 < letterbox_new_h (uniform_mat 320 640) 640 \<and>
   (\<exists>resized out.
      cv_resize nearest (uniform_mat 320 640) 640 320 = Inr resized \<and>
      letterbox nearest (uniform_mat 320 640) 640 = Inr out \<and>
      rows out = 640 \<and> cols out = 640 \<and> channels out = 3 \<and>
      pixels out ! 0 ! 0 = [0, 0, 0] \<and>
      pixels out ! 160 ! 0 = pixels resized ! 0 ! 0 \<and>
      pixels out ! 479 ! 639 = pixels resized ! 319 ! 639 \<and>
      pixels out ! 480 ! 639 = [0, 0, 0])"
proof -
  have a: "rows (uniform_mat 320 640) = 320 \<and> cols (uniform_mat 320 640) = 640"
    and ch: "channels (uniform_mat 320 640) = 3"
    by (simp_all add: uniform_mat_def)
  note t = letterbox_640 [of "uniform_mat 320 640" nearest]
  have b: "max (rows (uniform_mat 320 640)) (cols (uniform_mat 320 640)) \<le>
     320 * min (rows (uniform_mat 320 640)) (cols (uniform_mat 320 640))"
    using a by simp
  have pos: "0 < letterbox_new_w (uniform_mat 320 640) 640 \<and>
    0 < letterbox_new_h (uniform_mat 320 640) 640"
    using t a b by simp
  from t a obtain resized out where
    rs: "cv_resize nearest (uniform_mat 320 640) 640 320 = Inr resized"
    and lb: "letterbox nearest (uniform_mat 320 640) 640 = Inr out"
    and sh: "rows out = 640" "cols out = 640" "channels out = channels (uniform_mat 320 640)"
    and px: "\<forall>r < 640. \<forall>c < 640. pixels out ! r ! c =
            (if 160 \<le> r \<and> r < 480 then pixels resized ! (r - 160) ! c
             else replicate (channels (uniform_mat 320 640)) 0)"
    and sc: "letterbox_scale (uniform_mat 320 640) 640 = 1"
    by blast
  have "pixels out ! 0 ! 0 = [0, 0, 0]" "pixels out ! 160 ! 0 = pixels resized ! 0 ! 0"
    "pixels out ! 479 ! 639 = pixels resized ! 319 ! 639" "pixels out ! 480 ! 639 = [0, 0, 0]"
    using px ch by (simp_all add: numeral_3_eq_3)
  with a b sc pos rs lb sh ch show ?thesis by auto
qed

section \<open>Properties of the dequantizer\<close>

lemma f32_round_small: "\<forall>n \<in> set [0..255]. f32_round (of_int n) = of_int n"
  by code_simp

lemma f32_of_int_uint8: "f32_of_int (uint (raw :: uint8_t)) = of_int (uint raw)"
proof -
  have "uint raw < 256" using uint_lt2p [of raw] by simp
  then have "uint raw \<in> set [0..255]" by simp
  with f32_round_small show ?thesis
    unfolding f32_of_int_def by blast
qed

text \<open>
  C5. For 8-bit unsigned storage \<open>get_dequant_value\<close> returns
  \<open>(raw_value - zero_point) * scale\<close>, the subtraction and the product being those of
  \<^verbatim>\<open>float\<close>; for float storage it returns the stored value, whatever \<open>zero_point\<close>
  and \<open>scale\<close> are; for every other storage kind it returns 0. With zero point 128
  and scale 0.00392157 the raw value 128 gives 0 and the raw value 255 gives a value
  within 0.001 of 0.498.
\<close>

theorem get_dequant_value_contract:
  "(0 \<le> idx \<and> idx < int (length data) \<longrightarrow>
      get_dequant_value data kTfLiteUInt8 idx zero_point scale =
        Inr (f32_mul (f32_sub (of_int (uint (data ! nat idx))) zero_point) scale)) \<and>
   get_dequant_value data kTfLiteFloat32 idx zero_point scale = read_f32 data idx \<and>
   (tensor_type \<noteq> kTfLiteUInt8 \<and> tensor_type \<noteq> kTfLiteFloat32 \<longrightarrow>
      get_dequant_value data tensor_type idx zero_point scale = Inr 0) \<and>
   get_dequant_value [128] kTfLiteUInt8 0 (f32_of_int 128) (f32_of_double (392157 / 100000000)) = Inr 0 \<and>
   (\<exists>v. get_dequant_value [255] kTfLiteUInt8 0 (f32_of_int 128) (f32_of_double (392157 / 100000000)) = Inr v \<and>
        \<bar>v - 498 / 1000\<bar> < 1 / 1000)"
proof (intro conjI impI)
  assume "0 \<le> idx \<and> idx < int (length data)"
  then show "get_dequant_value data kTfLiteUInt8 idx zero_point scale =
        Inr (f32_mul (f32_sub (of_int (uint (data ! nat idx))) zero_point) scale)"
    by (simp add: get_dequant_value_def read_u8_def f32_of_int_uint8)
next
  show "get_dequant_value data kTfLiteFloat32 idx zero_point scale = read_f32 data idx"
    by (simp add: get_dequant_value_def)
next
  assume "tensor_type \<noteq> kTfLiteUInt8 \<and> tensor_type \<noteq> kTfLiteFloat32"
  then show "get_dequant_value data tensor_type idx zero_point scale = Inr 0"
    by (cases tensor_type) (simp_all add: get_dequant_value_def)
next
  show "get_dequant_value [128] kTfLiteUInt8 0 (f32_of_int 128)
          (f32_of_double (392157 / 100000000)) = Inr 0"
    by code_simp
next
  have "get_dequant_value [255] kTfLiteUInt8 0 (f32_of_int 128)
          (f32_of_double (392157 / 100000000)) = Inr (4177857 / 8388608)"
    by code_simp
  moreover have "\<bar>(4177857 / 8388608 :: rat) - 498 / 1000\<bar> < 1 / 1000"
    by simp
  ultimately show "\<exists>v. get_dequant_value [255] kTfLiteUInt8 0 (f32_of_int 128)
          (f32_of_double (392157 / 100000000)) = Inr v \<and> \<bar>v - 498 / 1000\<bar> < 1 / 1000"
    by blast
qed

theorem get_dequant_value_contract_witness:
  "get_dequant_value [7, 200] kTfLiteUInt8 1 3 (1 / 2) = Inr (197 / 2) \<and>
   get_dequant_value [0, 0, 128, 63] kTfLiteFloat32 0 3 (1 / 2) = Inr 1 \<and>
   get_dequant_value [7, 200] kTfLiteInt8 1 3 (1 / 2) = Inr 0"
proof -
  have a: "f32_mul (f32_sub (of_int (uint ([7, 200 :: uint8_t] ! nat 1))) 3) (1 / 2) = 197 / 2"
    by code_simp
  have b: "read_f32 [0, 0, 128, 63] 0 = Inr 1"
    by code_simp
  show ?thesis
    using get_dequant_value_contract [of 1 "[7, 200]" 3 "1 / 2" kTfLiteInt8]
      get_dequant_value_contract [of 0 "[0, 0, 128, 63]" 3 "1 / 2" kTfLiteInt8] a b
    by simp
qed

section \<open>Properties of the geometry scan\<close>

lemma dims_loop_zero: "0 \<in> set ds \<Longrightarrow> dims_loop ds cursor (w, h, c) = None"
proof (induction ds arbitrary: cursor w h c)
  case Nil
  then show ?case by simp
next
  case (Cons d ds)
  show ?case
  proof (cases "d = 0")
    case True
    then show ?thesis by simp
  next
    case False
    with Cons.prems have "0 \<in> set ds" by simp
    then have "\<And>cursor w h c. dims_loop ds cursor (w, h, c) = None"
      by (rule Cons.IH)
    then show ?thesis by simp
  qed
qed

lemma dims_loop_filter:
  "dims_loop ds cursor (w, h, c) = dims_loop (filter (\<lambda>d. d \<noteq> 1) ds) cursor (w, h, c)"
  by (induction ds arbitrary: cursor w h c) simp_all

text \<open>
  C7. Let \<open>ns\<close> be the dimensions other than 1, in their order. \<open>tensor_image_dims\<close>
  fails exactly when some dimension is 0, or \<open>ns\<close> has more than three entries, or
  fewer than two, or three with the third above 4. Otherwise the width is the first
  entry of \<open>ns\<close>, the height the second, and the channel count the third, or 1 when
  \<open>ns\<close> has two entries. What the three variables hold before the call has no effect.
\<close>

theorem tensor_image_dims_contract:
  "tensor_image_dims tensor whc =
     (let ns = filter (\<lambda>d. d \<noteq> 1) (t_dims tensor)
      in if 0 \<in> set (t_dims tensor) \<or> 3 < length ns \<or> length ns < 2 \<or>
            (length ns = 3 \<and> 4 < ns ! 2)
         then None
         else Some (ns ! 0, ns ! 1, if length ns = 2 then 1 else ns ! 2))"
proof (cases "0 \<in> set (t_dims tensor)")
  case True
  then show ?thesis
    by (cases whc) (simp add: tensor_image_dims_def dims_loop_zero Let_def)
next
  case False
  define ns where "ns = filter (\<lambda>d. d \<noteq> 1) (t_dims tensor)"
  have ns: "\<forall>d \<in> set ns. d \<noteq> 0 \<and> d \<noteq> 1"
    using False by (auto simp: ns_def)
  obtain w0 h0 c0 where whc: "whc = (w0, h0, c0)"
    by (cases whc) auto
  have loop: "dims_loop (t_dims tensor) 0 whc = dims_loop ns 0 (w0, h0, c0)"
    unfolding ns_def whc by (rule dims_loop_filter)
  consider "ns = []" | a where "ns = [a]" | a b where "ns = [a, b]"
    | a b c where "ns = [a, b, c]" | a b c d rest where "ns = a # b # c # d # rest"
    by (metis list.exhaust)
  then have "(case dims_loop ns 0 (w0, h0, c0) of
        None \<Rightarrow> None
      | Some (cursor, w, h, c) \<Rightarrow>
          if cursor < 2 then None
          else let c = (if cursor = 2 then 1 else c)
               in if 4 < c then None else Some (w, h, c)) =
     (if 3 < length ns \<or> length ns < 2 \<or> (length ns = 3 \<and> 4 < ns ! 2)
         then None
         else Some (ns ! 0, ns ! 1, if length ns = 2 then 1 else ns ! 2))"
    using ns by cases auto
  then show ?thesis
    using False loop by (simp add: tensor_image_dims_def Let_def ns_def)
qed

section \<open>Properties of non-maximum suppression\<close>

subsection \<open>The sort\<close>

lemma std_sort_mset: "mset (std_sort choice cands) = mset cands"
  by (simp add: std_sort_def Let_def insertion_sort_def)

lemma std_sort_set: "set (std_sort choice cands) = set cands"
  using std_sort_mset by (rule mset_eq_setD)

lemma std_sort_Nil: "std_sort choice [] = []"
  using std_sort_mset [of choice "[]"] by simp

lemma insertion_sort_sorted:
  "sorted_wrt (\<lambda>a b. confidence b \<le> confidence a) (insertion_sort cands)"
proof -
  have "sorted (map (\<lambda>d. - confidence d) (insertion_sort cands))"
    by (simp add: insertion_sort_def)
  then show ?thesis
    by (simp add: sorted_map sorted_wrt_iff_nth_less)
qed

lemma std_sort_sorted:
  "sorted_wrt (\<lambda>a b. confidence b \<le> confidence a) (std_sort choice cands)"
  using insertion_sort_sorted [of cands] by (simp add: std_sort_def Let_def not_less)

text \<open>
  Every permutation of the candidates by decreasing confidence is the result of
  \<open>std_sort\<close> for some library, and the library that sorts by insertion is one.
\<close>

lemma std_sort_complete:
  assumes "mset ys = mset cands" and "sorted_wrt (\<lambda>a b. confidence b \<le> confidence a) ys"
  shows "std_sort (\<lambda>candidates. ys) cands = ys"
  using assms by (simp add: std_sort_def not_less)

lemma std_sort_insertion_sort: "std_sort insertion_sort cands = insertion_sort cands"
  by (simp add: std_sort_def Let_def)

lemma sorted_permutation_unique:
  assumes m: "mset ys = mset xs" and d: "distinct (map confidence xs)"
    and sx: "sorted_wrt (\<lambda>a b. confidence b \<le> confidence a) xs"
    and sy: "sorted_wrt (\<lambda>a b. confidence b \<le> confidence a) ys"
  shows "ys = xs"
proof -
  let ?f = "\<lambda>d. - confidence d"
  have inj: "inj_on ?f (set xs)"
    using d by (auto simp: distinct_map inj_on_def)
  have x: "sorted (map ?f xs)" and y: "sorted (map ?f ys)"
    using sx sy by (simp_all add: sorted_map)
  from x have "sort_key ?f xs = xs"
    by (rule sort_key_id_if_sorted)
  moreover from m [symmetric] inj y have "sort_key ?f xs = ys"
    by (rule sort_key_inj_key_eq)
  ultimately show ?thesis by simp
qed

lemma std_sort_distinct:
  assumes "distinct (map confidence cands)"
    and "sorted_wrt (\<lambda>a b. confidence b \<le> confidence a) cands"
  shows "std_sort choice cands = cands"
  using std_sort_mset assms(1,2) std_sort_sorted by (rule sorted_permutation_unique)

subsection \<open>The loops\<close>

lemma map_snd_nms_inner: "map snd (nms_inner c t later) = map snd later"
  by (induction later) (auto simp: nms_inner_def)

lemma unflagged_nms_inner:
  "(False, d) \<in> set (nms_inner c t later) \<longleftrightarrow>
     (False, d) \<in> set later \<and> \<not> (id' d = id' c \<and> t < calculateIoU (box c) (box d))"
  by (induction later) (auto simp: nms_inner_def split: if_splits)

lemma nms_outer_unflagged:
  "d \<in> set (nms_outer t flagged) \<Longrightarrow> (False, d) \<in> set flagged"
proof (induction t flagged rule: nms_outer.induct)
  case (1 t)
  then show ?case by simp
next
  case (2 t s c later)
  then show ?case
    by (auto simp: unflagged_nms_inner split: if_splits)
qed

lemma nms_outer_sorted_wrt:
  "sorted_wrt P (map snd flagged) \<Longrightarrow> sorted_wrt P (nms_outer t flagged)"
proof (induction t flagged rule: nms_outer.induct)
  case (1 t)
  then show ?case by simp
next
  case (2 t s c later)
  show ?case
  proof (cases s)
    case True
    with 2 show ?thesis by simp
  next
    case False
    have P: "\<forall>d \<in> set (map snd later). P c d" and S: "sorted_wrt P (map snd later)"
      using "2.prems" by simp_all
    have "sorted_wrt P (nms_outer t (nms_inner c t later))"
      using "2.IH"(2) [OF False] S by (simp add: map_snd_nms_inner)
    moreover have "\<forall>d \<in> set (nms_outer t (nms_inner c t later)). P c d"
    proof
      fix d assume "d \<in> set (nms_outer t (nms_inner c t later))"
      then have "(False, d) \<in> set later"
        using nms_outer_unflagged unflagged_nms_inner by blast
      then have "d \<in> set (map snd later)" by force
      with P show "P c d" by blast
    qed
    ultimately show ?thesis using False by simp
  qed
qed

lemma set_optimizedNMS: "set (optimizedNMS choice cands t) \<subseteq> set cands"
proof
  fix d assume "d \<in> set (optimizedNMS choice cands t)"
  then have "(False, d) \<in> set (map (Pair False) (std_sort choice cands))"
    by (auto simp: optimizedNMS_def dest: nms_outer_unflagged split: if_splits)
  then show "d \<in> set cands"
    by (auto simp: std_sort_set)
qed

lemma optimizedNMS_sorted:
  "sorted_wrt (\<lambda>a b. confidence b \<le> confidence a) (optimizedNMS choice cands t)"
proof (cases "cands = []")
  case True
  then show ?thesis by (simp add: optimizedNMS_def)
next
  case False
  have "sorted_wrt (\<lambda>a b. confidence b \<le> confidence a)
          (map snd (map (Pair False) (std_sort choice cands)))"
    by (simp add: std_sort_sorted comp_def)
  then show ?thesis
    using False by (simp add: optimizedNMS_def nms_outer_sorted_wrt)
qed

text \<open>
  C9. The confidences of the list that \<open>optimizedNMS\<close> returns never increase from
  one detection to a later one, so the first detection has the highest confidence.
  This does not depend on the order that the sort gives to candidates of equal
  confidence: it holds for every library, and the loops keep the order of every list
  that is sorted by decreasing confidence.
\<close>

theorem nms_confidence_non_increasing:
  "sorted_wrt (\<lambda>a b. confidence b \<le> confidence a)
     (optimizedNMS choice candidates nmsThreshold) \<and>
   (\<forall>sorted_candidates.
      sorted_wrt (\<lambda>a b. confidence b \<le> confidence a) sorted_candidates \<longrightarrow>
      sorted_wrt (\<lambda>a b. confidence b \<le> confidence a)
        (nms_outer nmsThreshold (map (Pair False) sorted_candidates)))"
proof (intro conjI allI impI)
  show "sorted_wrt (\<lambda>a b. confidence b \<le> confidence a)
          (optimizedNMS choice candidates nmsThreshold)"
    by (rule optimizedNMS_sorted)
next
  fix sorted_candidates :: "DetectionResult list"
  assume "sorted_wrt (\<lambda>a b. confidence b \<le> confidence a) sorted_candidates"
  then have "sorted_wrt (\<lambda>a b. confidence b \<le> confidence a)
               (map snd (map (Pair False) sorted_candidates))"
    by (simp add: comp_def)
  then show "sorted_wrt (\<lambda>a b. confidence b \<le> confidence a)
               (nms_outer nmsThreshold (map (Pair False) sorted_candidates))"
    by (rule nms_outer_sorted_wrt)
qed

theorem nms_confidence_non_increasing_witness:
  "sorted_wrt (\<lambda>a b. confidence b \<le> confidence a)
     (optimizedNMS gnu_sort example_candidates (45 / 100)) \<and>
   sorted_wrt (\<lambda>a b. confidence b \<le> confidence a) example_sorted \<and>
   sorted_wrt (\<lambda>a b. confidence b \<le> confidence a)
     (nms_outer (45 / 100) (map (Pair False) example_sorted))"
proof -
  have "sorted_wrt (\<lambda>a b. confidence b \<le> confidence a) example_sorted"
    by (simp add: example_sorted_def)
  with nms_confidence_non_increasing [of gnu_sort example_candidates "45 / 100"] show ?thesis
    by blast
qed

subsection \<open>A second run\<close>

lemma nms_outer_no_suppress:
  "sorted_wrt (\<lambda>c d. \<not> (id' d = id' c \<and> t < calculateIoU (box c) (box d)))
     (nms_outer t flagged)"
proof (induction t flagged rule: nms_outer.induct)
  case (1 t)
  then show ?case by simp
next
  case (2 t s c later)
  show ?case
  proof (cases s)
    case True
    with 2 show ?thesis by simp
  next
    case False
    have "\<forall>d \<in> set (nms_outer t (nms_inner c t later)).
            \<not> (id' d = id' c \<and> t < calculateIoU (box c) (box d))"
      using nms_outer_unflagged unflagged_nms_inner by blast
    with "2.IH"(2) [OF False] False show ?thesis by simp
  qed
qed

lemma nms_inner_fresh:
  "\<forall>d \<in> set ds. \<not> (id' d = id' c \<and> t < calculateIoU (box c) (box d)) \<Longrightarrow>
   nms_inner c t (map (Pair False) ds) = map (Pair False) ds"
  by (induction ds) (auto simp: nms_inner_def)

lemma nms_outer_fixpoint:
  "sorted_wrt (\<lambda>c d. \<not> (id' d = id' c \<and> t < calculateIoU (box c) (box d))) ds \<Longrightarrow>
   nms_outer t (map (Pair False) ds) = ds"
  by (induction ds) (simp_all add: nms_inner_fresh)

lemma calculateIoU_sym: "calculateIoU a b = calculateIoU b a"
  by (simp add: calculateIoU_def Let_def max.commute min.commute add.commute)

lemma sorted_wrt_sym_mset:
  assumes sym: "\<And>x y. P x y \<Longrightarrow> P y x"
  shows "mset ys = mset xs \<Longrightarrow> sorted_wrt P xs \<Longrightarrow> sorted_wrt P ys"
proof (induction ys arbitrary: xs)
  case Nil
  then show ?case by simp
next
  case (Cons y ys)
  from Cons.prems(1) have "y \<in> set xs"
    by (metis list.set_intros(1) mset_eq_setD)
  then obtain as bs where xs: "xs = as @ y # bs"
    by (auto dest: split_list)
  with Cons.prems(1) have m: "mset ys = mset (as @ bs)" by simp
  from Cons.prems(2) xs have s: "sorted_wrt P (as @ bs)"
    and a: "\<forall>x \<in> set as. P x y" and b: "\<forall>x \<in> set bs. P y x"
    by (auto simp: sorted_wrt_append)
  have "sorted_wrt P ys" using m s by (rule Cons.IH)
  moreover have "\<forall>z \<in> set ys. P y z"
  proof
    fix z assume "z \<in> set ys"
    then have "z \<in> set as \<union> set bs"
      using m by (metis mset_eq_setD set_append)
    with a b sym show "P y z" by blast
  qed
  ultimately show ?case by simp
qed

lemma optimizedNMS_no_suppress:
  "sorted_wrt (\<lambda>c d. \<not> (id' d = id' c \<and> t < calculateIoU (box c) (box d)))
     (optimizedNMS choice cands t)"
proof (cases "cands = []")
  case True
  then show ?thesis by (simp add: optimizedNMS_def)
next
  case False
  then have "optimizedNMS choice cands t =
             nms_outer t (map (Pair False) (std_sort choice cands))"
    by (simp add: optimizedNMS_def)
  then show ?thesis
    by (simp only: nms_outer_no_suppress)
qed

lemma reordered_no_suppress:
  assumes "mset ys = mset (optimizedNMS choice cands t)"
  shows "nms_outer t (map (Pair False) ys) = ys"
proof -
  let ?P = "\<lambda>c d. \<not> (id' d = id' c \<and> t < calculateIoU (box c) (box d))"
  have "\<And>x y. ?P x y \<Longrightarrow> ?P y x"
    by (auto simp: calculateIoU_sym)
  then have "sorted_wrt ?P ys"
    using assms optimizedNMS_no_suppress
      sorted_wrt_sym_mset [of ?P ys "optimizedNMS choice cands t"]
    by blast
  then show ?thesis by (rule nms_outer_fixpoint)
qed

lemma optimizedNMS_again:
  "optimizedNMS choice' (optimizedNMS choice cands t) t =
   std_sort choice' (optimizedNMS choice cands t)"
proof -
  let ?out = "optimizedNMS choice cands t"
  have "nms_outer t (map (Pair False) (std_sort choice' ?out)) = std_sort choice' ?out"
    by (rule reordered_no_suppress) (rule std_sort_mset)
  moreover have "?out = [] \<Longrightarrow> std_sort choice' ?out = []"
    by (simp only: std_sort_Nil)
  ultimately have "(if ?out = [] then []
      else nms_outer t (map (Pair False) (std_sort choice' ?out))) = std_sort choice' ?out"
    by simp
  then show ?thesis
    by (simp only: optimizedNMS_def [of choice' ?out])
qed

text \<open>
  The claim C10 has the second run return the list that the first run returned. With
  17 candidates of one confidence and 17 classes, of which none suppresses another,
  and the order that the GNU library gives to them, the first run returns the
  candidates in the order 8, 16, 15, \<dots>, 9, 0, 7, 6, \<dots>, 1 and the second run, on
  that list, in the order 9, 1, 2, \<dots>, 7, 0, 8, 10, 11, \<dots>, 16.
\<close>

theorem nms_tied_counterexample:
  "optimizedNMS gnu_sort (map tied [0..16]) (45 / 100) =
     map tied [8, 16, 15, 14, 13, 12, 11, 10, 9, 0, 7, 6, 5, 4, 3, 2, 1] \<and>
   optimizedNMS gnu_sort (optimizedNMS gnu_sort (map tied [0..16]) (45 / 100)) (45 / 100) =
     map tied [9, 1, 2, 3, 4, 5, 6, 7, 0, 8, 10, 11, 12, 13, 14, 15, 16]"
  by code_simp

text \<open>
  C10, as the code has it. Run on its own result with the same threshold,
  \<open>optimizedNMS\<close> only sorts that result again: no further suppression occurs, and
  the second result has the detections of the first, each as often. It is the first
  result, in the same order, when the confidences of the first result differ from each
  other, and with a library that keeps detections of equal confidence in their
  order; other libraries may permute detections of equal confidence. The loops keep
  every detection of the result, in whatever order the result is given to them.
\<close>

theorem nms_second_run:
  "optimizedNMS choice (optimizedNMS choice candidates nmsThreshold) nmsThreshold =
     std_sort choice (optimizedNMS choice candidates nmsThreshold) \<and>
   mset (optimizedNMS choice (optimizedNMS choice candidates nmsThreshold) nmsThreshold) =
     mset (optimizedNMS choice candidates nmsThreshold) \<and>
   (distinct (map confidence (optimizedNMS choice candidates nmsThreshold)) \<longrightarrow>
      optimizedNMS choice (optimizedNMS choice candidates nmsThreshold) nmsThreshold =
        optimizedNMS choice candidates nmsThreshold) \<and>
   optimizedNMS insertion_sort (optimizedNMS choice candidates nmsThreshold) nmsThreshold =
     optimizedNMS choice candidates nmsThreshold \<and>
   (\<forall>reordered. mset reordered = mset (optimizedNMS choice candidates nmsThreshold) \<longrightarrow>
      nms_outer nmsThreshold (map (Pair False) reordered) = reordered)"
proof (intro conjI allI impI)
  let ?out = "optimizedNMS choice candidates nmsThreshold"
  show again: "optimizedNMS choice ?out nmsThreshold = std_sort choice ?out"
    by (rule optimizedNMS_again)
  show "mset (optimizedNMS choice ?out nmsThreshold) = mset ?out"
    by (simp only: again std_sort_mset)
  show "optimizedNMS choice ?out nmsThreshold = ?out" if "distinct (map confidence ?out)"
    using that by (simp only: again std_sort_distinct [OF _ optimizedNMS_sorted])
  have "insertion_sort ?out = ?out"
    unfolding insertion_sort_def
    by (rule sort_key_id_if_sorted) (simp add: sorted_map optimizedNMS_sorted)
  then show "optimizedNMS insertion_sort ?out nmsThreshold = ?out"
    by (simp only: optimizedNMS_again std_sort_insertion_sort)
next
  fix reordered :: "DetectionResult list"
  assume "mset reordered = mset (optimizedNMS choice candidates nmsThreshold)"
  then show "nms_outer nmsThreshold (map (Pair False) reordered) = reordered"
    by (rule reordered_no_suppress)
qed

theorem nms_second_run_witness:
  "optimizedNMS gnu_sort three_overlapping (45 / 100) =
     [three_overlapping ! 0, three_overlapping ! 2] \<and>
   distinct (map confidence (optimizedNMS gnu_sort three_overlapping (45 / 100))) \<and>
   optimizedNMS gnu_sort (optimizedNMS gnu_sort three_overlapping (45 / 100)) (45 / 100) =
     optimizedNMS gnu_sort three_overlapping (45 / 100) \<and>
   nms_outer (45 / 100)
     (map (Pair False) (rev (optimizedNMS gnu_sort three_overlapping (45 / 100)))) =
     rev (optimizedNMS gnu_sort three_overlapping (45 / 100))"
proof -
  have e: "optimizedNMS gnu_sort three_overlapping (45 / 100) =
     [three_overlapping ! 0, three_overlapping ! 2]"
    by code_simp
  have d: "distinct (map confidence (optimizedNMS gnu_sort three_overlapping (45 / 100)))"
    by code_simp
  have "mset (rev (optimizedNMS gnu_sort three_overlapping (45 / 100))) =
        mset (optimizedNMS gnu_sort three_overlapping (45 / 100))"
    by simp
  with nms_second_run [of gnu_sort three_overlapping "45 / 100"] e d show ?thesis
    by blast
qed

subsection \<open>Classes\<close>

lemma filter_nms_inner_same:
  "filter (\<lambda>(s, d). id' d = k) (nms_inner c t later) =
   nms_inner c t (filter (\<lambda>(s, d). id' d = k) later)"
  by (induction later) (auto simp: nms_inner_def split: if_splits)

lemma filter_nms_inner_other:
  "id' c \<noteq> k \<Longrightarrow>
   filter (\<lambda>(s, d). id' d = k) (nms_inner c t later) = filter (\<lambda>(s, d). id' d = k) later"
  by (induction later) (auto simp: nms_inner_def split: if_splits)

lemma filter_nms_outer:
  "filter (\<lambda>d. id' d = k) (nms_outer t flagged) =
   nms_outer t (filter (\<lambda>(s, d). id' d = k) flagged)"
proof (induction t flagged rule: nms_outer.induct)
  case (1 t)
  then show ?case by simp
next
  case (2 t s c later)
  show ?case
  proof (cases s)
    case True
    with 2 show ?thesis by simp
  next
    case False
    note IH = "2.IH"(2) [OF False]
    show ?thesis
    proof (cases "id' c = k")
      case True
      with False IH show ?thesis by (simp add: filter_nms_inner_same)
    next
      case other: False
      with False IH show ?thesis by (simp add: filter_nms_inner_other)
    qed
  qed
qed

lemma filter_flag_fresh:
  "filter (\<lambda>(s, d). id' d = k) (map (Pair False) ds) =
   map (Pair False) (filter (\<lambda>d. id' d = k) ds)"
  by (induction ds) auto

lemma filter_nms_sorted:
  "filter (\<lambda>d. id' d = k) (optimizedNMS choice cands t) =
   nms_outer t (map (Pair False) (filter (\<lambda>d. id' d = k) (std_sort choice cands)))"
proof (cases "cands = []")
  case True
  then show ?thesis by (simp add: optimizedNMS_def std_sort_Nil)
next
  case False
  then show ?thesis
    by (simp add: optimizedNMS_def filter_nms_outer filter_flag_fresh)
qed

text \<open>
  The candidates of one class, in the order that the sort has given to all candidates,
  are a permutation by decreasing confidence of the candidates of that class: the
  detections of the class are what \<open>optimizedNMS\<close> returns for the candidates of the
  class alone, with a library that gives them this order.
\<close>

lemma filter_optimizedNMS:
  "filter (\<lambda>d. id' d = k) (optimizedNMS choice cands t) =
   optimizedNMS (\<lambda>class_candidates. filter (\<lambda>d. id' d = k) (std_sort choice cands))
     (filter (\<lambda>d. id' d = k) cands) t"
proof -
  let ?ys = "filter (\<lambda>d. id' d = k) (std_sort choice cands)"
  let ?xs = "filter (\<lambda>d. id' d = k) cands"
  have "mset ?ys = mset ?xs"
    by (simp add: std_sort_mset)
  moreover have "sorted_wrt (\<lambda>a b. confidence b \<le> confidence a) ?ys"
    by (rule sorted_wrt_filter) (rule std_sort_sorted)
  ultimately have s: "std_sort (\<lambda>class_candidates. ?ys) ?xs = ?ys"
    by (rule std_sort_complete)
  have "?xs = [] \<Longrightarrow> ?ys = []"
    using \<open>mset ?ys = mset ?xs\<close> by simp
  then have "optimizedNMS (\<lambda>class_candidates. ?ys) ?xs t = nms_outer t (map (Pair False) ?ys)"
    by (simp add: optimizedNMS_def s)
  then show ?thesis
    by (simp only: filter_nms_sorted)
qed

lemma filter_optimizedNMS_insertion_sort:
  "filter (\<lambda>d. id' d = k) (optimizedNMS insertion_sort cands t) =
   optimizedNMS insertion_sort (filter (\<lambda>d. id' d = k) cands) t"
proof -
  have "filter (\<lambda>d. id' d = k) (insertion_sort cands) =
        insertion_sort (filter (\<lambda>d. id' d = k) cands)"
    by (simp add: insertion_sort_def filter_sort)
  moreover have "insertion_sort [] = []"
    by (simp add: insertion_sort_def)
  ultimately show ?thesis
    by (auto simp: optimizedNMS_def filter_nms_outer filter_flag_fresh std_sort_insertion_sort)
qed

lemma nms_inner_flag:
  "(s, d) \<in> set later \<Longrightarrow>
   (s \<or> (id' d = id' c \<and> t < calculateIoU (box c) (box d)), d) \<in> set (nms_inner c t later)"
  by (induction later) (auto simp: nms_inner_def split: if_splits)

lemma nms_outer_suppressor:
  "sorted_wrt P (map snd flagged) \<Longrightarrow> (s, d) \<in> set flagged \<Longrightarrow>
   d \<in> set (nms_outer t flagged) \<or> s \<or>
   (\<exists>c \<in> set (nms_outer t flagged). P c d \<and> id' c = id' d \<and> t < calculateIoU (box c) (box d))"
proof (induction t flagged arbitrary: s rule: nms_outer.induct)
  case (1 t)
  then show ?case by simp
next
  case (2 t s0 c0 later)
  have P: "\<forall>x \<in> set (map snd later). P c0 x" and S: "sorted_wrt P (map snd later)"
    using "2.prems"(1) by simp_all
  show ?case
  proof (cases s0)
    case True
    from "2.prems"(2) consider "(s, d) = (s0, c0)" | "(s, d) \<in> set later" by auto
    then show ?thesis
    proof cases
      case 1
      with True show ?thesis by simp
    next
      case 2
      from "2.IH"(1) [OF True S 2] True show ?thesis by simp
    qed
  next
    case False
    from "2.prems"(2) consider "(s, d) = (s0, c0)" | "(s, d) \<in> set later" by auto
    then show ?thesis
    proof cases
      case 1
      with False show ?thesis by simp
    next
      case 2
      let ?s = "s \<or> (id' d = id' c0 \<and> t < calculateIoU (box c0) (box d))"
      have in': "(?s, d) \<in> set (nms_inner c0 t later)"
        using 2 by (rule nms_inner_flag)
      have S': "sorted_wrt P (map snd (nms_inner c0 t later))"
        using S by (simp only: map_snd_nms_inner)
      have Pd: "P c0 d" using P 2 by force
      from "2.IH"(2) [OF False S' in'] Pd False show ?thesis
        by auto
    qed
  qed
qed

lemma optimizedNMS_suppressor:
  assumes "d \<in> set cands"
  shows "d \<in> set (optimizedNMS choice cands t) \<or>
         (\<exists>c \<in> set (optimizedNMS choice cands t).
            confidence d \<le> confidence c \<and> id' c = id' d \<and> t < calculateIoU (box c) (box d))"
proof -
  from assms have ne: "cands \<noteq> []" by auto
  have "sorted_wrt (\<lambda>a b. confidence b \<le> confidence a)
          (map snd (map (Pair False) (std_sort choice cands)))"
    by (simp add: std_sort_sorted comp_def)
  moreover have "(False, d) \<in> set (map (Pair False) (std_sort choice cands))"
    using assms by (simp add: std_sort_set)
  ultimately show ?thesis
    using nms_outer_suppressor
      [of "\<lambda>a b. confidence b \<le> confidence a" "map (Pair False) (std_sort choice cands)" False d t]
      ne
    by (simp add: optimizedNMS_def)
qed

lemma optimizedNMS_retains:
  assumes "a \<in> set cands"
    and "\<forall>c \<in> set cands. c \<noteq> a \<and> id' c = id' a \<longrightarrow> calculateIoU (box c) (box a) \<le> t"
  shows "a \<in> set (optimizedNMS choice cands t)"
proof (rule ccontr)
  assume n: "a \<notin> set (optimizedNMS choice cands t)"
  with optimizedNMS_suppressor [OF assms(1), of choice t] obtain c where
    c: "c \<in> set (optimizedNMS choice cands t)" "id' c = id' a" "t < calculateIoU (box c) (box a)"
    by blast
  from c(1) n have "c \<noteq> a" by blast
  moreover from c(1) have "c \<in> set cands" using set_optimizedNMS by blast
  ultimately show False using assms(2) c(2,3) by force
qed

lemma optimizedNMS_two_classes:
  assumes "id' a \<noteq> id' b"
  shows "optimizedNMS choice [a, b] t = std_sort choice [a, b]"
proof -
  let ?P = "\<lambda>c d. \<not> (id' d = id' c \<and> t < calculateIoU (box c) (box d))"
  have "sorted_wrt ?P [a, b]" using assms by simp
  moreover have "\<And>x y. ?P x y \<Longrightarrow> ?P y x"
    by (auto simp: calculateIoU_sym)
  ultimately have "sorted_wrt ?P (std_sort choice [a, b])"
    using sorted_wrt_sym_mset [of ?P "std_sort choice [a, b]" "[a, b]"] std_sort_mset
    by blast
  then have "nms_outer t (map (Pair False) (std_sort choice [a, b])) = std_sort choice [a, b]"
    by (rule nms_outer_fixpoint)
  then show ?thesis by (simp add: optimizedNMS_def)
qed

lemma three_overlapping_any_sort:
  "optimizedNMS choice three_overlapping (45 / 100) =
     [three_overlapping ! 0, three_overlapping ! 2]"
proof -
  have "std_sort choice three_overlapping = three_overlapping"
    by (rule std_sort_distinct) (simp_all add: three_overlapping_def)
  moreover have "nms_outer (45 / 100) (map (Pair False) three_overlapping) =
     [three_overlapping ! 0, three_overlapping ! 2]"
    by code_simp
  moreover have "three_overlapping \<noteq> []"
    by (simp add: three_overlapping_def)
  ultimately show ?thesis by (simp add: optimizedNMS_def)
qed

text \<open>
  The claim C8 has two candidates of one box and of different classes both retained in
  every candidate list. In the list of three candidates of one box, of the classes 1,
  1 and 2 and the confidences 0.9, 0.8 and 0.7, the second and the third are such a
  pair, and the first suppresses the second, which is of its class: the result has
  the first and the third candidate only. The confidences differ, so that every
  library gives the candidates the same order.
\<close>

theorem nms_same_class_counterexample:
  "id' (three_overlapping ! 1) \<noteq> id' (three_overlapping ! 2) \<and>
   box (three_overlapping ! 1) = box (three_overlapping ! 2) \<and>
   optimizedNMS insertion_sort three_overlapping (45 / 100) =
     [three_overlapping ! 0, three_overlapping ! 2] \<and>
   optimizedNMS gnu_sort three_overlapping (45 / 100) =
     [three_overlapping ! 0, three_overlapping ! 2]"
  by code_simp

text \<open>
  C8, as the code has it. Candidates of different classes never suppress each other: a
  candidate that is not in the result of \<open>optimizedNMS\<close> has a detection of its own
  class in the result that has at least its confidence and an intersection over union
  with it above the threshold. So a candidate is in the result when the list has no
  other candidate of its class with such an intersection, whatever candidates of
  other classes the list has. For every class, the detections of that class in the
  result are the result of \<open>optimizedNMS\<close> on the candidates of that class alone, in
  the order that the sort has given them among all candidates; with a library that
  keeps candidates of equal confidence in their order, this is the result for the
  candidates of that class alone. Two candidates of different classes, as a list of
  two, are both in the result, whatever their boxes and the threshold are.
\<close>

theorem nms_class_isolation:
  "(\<forall>d \<in> set candidates.
      d \<in> set (optimizedNMS choice candidates nmsThreshold) \<or>
      (\<exists>c \<in> set (optimizedNMS choice candidates nmsThreshold).
         confidence d \<le> confidence c \<and> id' c = id' d \<and>
         nmsThreshold < calculateIoU (box c) (box d))) \<and>
   (\<forall>a. a \<in> set candidates \<and>
        (\<forall>c \<in> set candidates.
           c \<noteq> a \<and> id' c = id' a \<longrightarrow> calculateIoU (box c) (box a) \<le> nmsThreshold) \<longrightarrow>
        a \<in> set (optimizedNMS choice candidates nmsThreshold)) \<and>
   (\<forall>k. filter (\<lambda>d. id' d = k) (optimizedNMS choice candidates nmsThreshold) =
        optimizedNMS (\<lambda>class_candidates. filter (\<lambda>d. id' d = k) (std_sort choice candidates))
          (filter (\<lambda>d. id' d = k) candidates) nmsThreshold) \<and>
   (\<forall>k. filter (\<lambda>d. id' d = k) (optimizedNMS insertion_sort candidates nmsThreshold) =
        optimizedNMS insertion_sort (filter (\<lambda>d. id' d = k) candidates) nmsThreshold) \<and>
   (\<forall>a b. id' a \<noteq> id' b \<longrightarrow>
      optimizedNMS choice [a, b] nmsThreshold = std_sort choice [a, b] \<and>
      set (optimizedNMS choice [a, b] nmsThreshold) = {a, b} \<and>
      length (optimizedNMS choice [a, b] nmsThreshold) = 2)"
proof (intro conjI allI impI ballI)
  fix d assume "d \<in> set candidates"
  then show "d \<in> set (optimizedNMS choice candidates nmsThreshold) \<or>
      (\<exists>c \<in> set (optimizedNMS choice candidates nmsThreshold).
         confidence d \<le> confidence c \<and> id' c = id' d \<and>
         nmsThreshold < calculateIoU (box c) (box d))"
    by (rule optimizedNMS_suppressor)
next
  fix a
  assume "a \<in> set candidates \<and>
        (\<forall>c \<in> set candidates.
           c \<noteq> a \<and> id' c = id' a \<longrightarrow> calculateIoU (box c) (box a) \<le> nmsThreshold)"
  then show "a \<in> set (optimizedNMS choice candidates nmsThreshold)"
    using optimizedNMS_retains by blast
next
  fix k
  show "filter (\<lambda>d. id' d = k) (optimizedNMS choice candidates nmsThreshold) =
        optimizedNMS (\<lambda>class_candidates. filter (\<lambda>d. id' d = k) (std_sort choice candidates))
          (filter (\<lambda>d. id' d = k) candidates) nmsThreshold"
    by (rule filter_optimizedNMS)
  show "filter (\<lambda>d. id' d = k) (optimizedNMS insertion_sort candidates nmsThreshold) =
        optimizedNMS insertion_sort (filter (\<lambda>d. id' d = k) candidates) nmsThreshold"
    by (rule filter_optimizedNMS_insertion_sort)
next
  fix a b :: DetectionResult
  assume ab: "id' a \<noteq> id' b"
  show e: "optimizedNMS choice [a, b] nmsThreshold = std_sort choice [a, b]"
    using ab by (rule optimizedNMS_two_classes)
  have m: "mset (optimizedNMS choice [a, b] nmsThreshold) = mset [a, b]"
    by (simp only: e std_sort_mset)
  from m have "set (optimizedNMS choice [a, b] nmsThreshold) = set [a, b]"
    by (rule mset_eq_setD)
  then show "set (optimizedNMS choice [a, b] nmsThreshold) = {a, b}" by simp
  from m have "length (optimizedNMS choice [a, b] nmsThreshold) = length [a, b]"
    by (rule mset_eq_length)
  then show "length (optimizedNMS choice [a, b] nmsThreshold) = 2" by simp
qed

theorem nms_class_isolation_witness:
  "three_overlapping ! 2 \<in> set three_overlapping \<and>
   three_overlapping ! 2 \<in> set (optimizedNMS gnu_sort three_overlapping (45 / 100)) \<and>
   id' (three_overlapping ! 1) \<noteq> id' (three_overlapping ! 2) \<and>
   set (optimizedNMS gnu_sort [three_overlapping ! 1, three_overlapping ! 2] 0) =
     {three_overlapping ! 1, three_overlapping ! 2} \<and>
   length (optimizedNMS gnu_sort [three_overlapping ! 1, three_overlapping ! 2] 0) = 2"
proof -
  have a: "three_overlapping ! 2 \<in> set three_overlapping"
    by (simp add: three_overlapping_def)
  have o: "\<forall>c \<in> set three_overlapping.
        c \<noteq> three_overlapping ! 2 \<and> id' c = id' (three_overlapping ! 2) \<longrightarrow>
        calculateIoU (box c) (box (three_overlapping ! 2)) \<le> 45 / 100"
    by (simp add: three_overlapping_def)
  have i: "id' (three_overlapping ! 1) \<noteq> id' (three_overlapping ! 2)"
    by (simp add: three_overlapping_def)
  from nms_class_isolation [of three_overlapping gnu_sort "45 / 100"] a o
  have "three_overlapping ! 2 \<in> set (optimizedNMS gnu_sort three_overlapping (45 / 100))"
    by blast
  moreover from nms_class_isolation [of "[]" gnu_sort 0] i
  have "set (optimizedNMS gnu_sort [three_overlapping ! 1, three_overlapping ! 2] 0) =
     {three_overlapping ! 1, three_overlapping ! 2} \<and>
   length (optimizedNMS gnu_sort [three_overlapping ! 1, three_overlapping ! 2] 0) = 2"
    by blast
  ultimately show ?thesis using a i by blast
qed

section \<open>Properties of the detector\<close>

lemma int_of_float_std_round:
  "0 \<le> x \<Longrightarrow> int_of_float (std_round x) = \<lfloor>x + 1 / 2\<rfloor>"
proof -
  assume x: "0 \<le> x"
  then have "0 \<le> \<lfloor>x + 1 / 2\<rfloor>" by simp
  then have "(0::rat) \<le> of_int \<lfloor>x + 1 / 2\<rfloor>" by simp
  then show ?thesis using x by (simp add: int_of_float_def std_round_def)
qed

lemma rounded_order:
  "\<not> max 0 b \<le> max 0 a \<Longrightarrow>
   int_of_float (std_round (max 0 a)) \<le> int_of_float (std_round (max 0 (b :: rat)))"
proof -
  assume "\<not> max 0 b \<le> max 0 a"
  then have "max 0 a + 1 / 2 \<le> max 0 b + 1 / 2" by linarith
  then have "\<lfloor>max 0 a + 1 / 2\<rfloor> \<le> \<lfloor>max 0 b + 1 / 2\<rfloor>" by (rule floor_mono)
  moreover have "0 \<le> max 0 a" "0 \<le> max 0 b" by simp_all
  ultimately show ?thesis by (simp only: int_of_float_std_round)
qed

lemma bind_errE:
  assumes "bind_err m f = Inr y"
  obtains x where "m = Inr x" and "f x = Inr y"
  using assms by (cases m) (simp_all add: bind_err_def)

lemma if_Inr_NoneE:
  assumes "(if b then Inr None else m) = Inr (Some d)"
  obtains "\<not> b" and "m = Inr (Some d)"
  using assms by (simp split: if_splits)


lemma candidate_box_order:
  assumes "candidate boxesData scoresData classesData boxesParams scoresParams
             box_threshold img_w img_h i = Inr (Some d)"
  shows "left (box d) \<le> right (box d) \<and> top' (box d) \<le> bottom (box d)"
  using assms unfolding candidate_def Let_def
  apply (elim bind_errE if_Inr_NoneE)
  apply (simp only: sum.inject option.inject)
  apply hypsubst
  apply (simp only: DetectionResult.select_convs BoxRect.select_convs de_Morgan_disj)
  apply (blast intro: rounded_order)
  done

lemma candidates_loop_all:
  assumes "\<And>i d. body i = Inr (Some d) \<Longrightarrow> P d"
  shows "\<forall>d \<in> set acc. P d \<Longrightarrow> candidates_loop body idxs acc = Inr out \<Longrightarrow> \<forall>d \<in> set out. P d"
proof (induction idxs arbitrary: acc)
  case Nil
  then show ?case by simp
next
  case (Cons i idxs)
  show ?case
  proof (cases "body i")
    case (Inl e)
    with Cons.prems show ?thesis by simp
  next
    case (Inr r)
    show ?thesis
    proof (cases r)
      case None
      with Inr Cons show ?thesis by simp
    next
      case (Some d)
      with Inr assms have "P d" by blast
      with Cons.prems(1) have "\<forall>x \<in> set (acc @ [d]). P x" by simp
      moreover have "candidates_loop body idxs (acc @ [d]) = Inr out"
        using Cons.prems(2) Inr Some by simp
      ultimately show ?thesis by (rule Cons.IH)
    qed
  qed
qed


lemma detect_candidates_boxes:
  assumes "detect_candidates outputs box_threshold img_w img_h = Inr cands"
  shows "\<forall>d \<in> set cands. left (box d) \<le> right (box d) \<and> top' (box d) \<le> bottom (box d)"
  using assms unfolding detect_candidates_def Let_def
  apply (elim bind_errE)
  apply (erule candidates_loop_all [rotated 2])
   apply (erule candidate_box_order)
  apply simp
  done

text \<open>
  C2, as the code has it. Every detection that \<open>detect\<close> returns has
  \<open>left \<le> right\<close> and \<open>top \<le> bottom\<close>: no box is inverted. The code compares the
  clamped coordinates before it rounds them, so a box whose clamped coordinates
  differ by less than a pixel can have \<open>left = right\<close> or \<open>top = bottom\<close>.
\<close>

theorem detect_boxes_not_inverted:
  assumes "detect interp choice self image' box_threshold nms_threshold = Inr results"
  shows "\<forall>d \<in> set results. left (box d) \<le> right (box d) \<and> top' (box d) \<le> bottom (box d)"
proof -
  from assms obtain input_data where
    "(case invoke self input_data of
       None \<Rightarrow> Inl (RuntimeError ''Interpreter invocation failed'')
     | Some outputs \<Rightarrow>
         bind_err (detect_candidates outputs box_threshold (shape image' ! 1) (shape image' ! 0))
           (\<lambda>candidateResults.
         Inr (optimizedNMS choice candidateResults (f32_of_double nms_threshold)))) = Inr results"
    unfolding detect_def by (elim bind_errE)
  then obtain outputs where
    "bind_err (detect_candidates outputs box_threshold (shape image' ! 1) (shape image' ! 0))
           (\<lambda>candidateResults.
         Inr (optimizedNMS choice candidateResults (f32_of_double nms_threshold))) = Inr results"
    by (cases "invoke self input_data") simp_all
  then obtain cands where
    c: "detect_candidates outputs box_threshold (shape image' ! 1) (shape image' ! 0) = Inr cands"
    and r: "results = optimizedNMS choice cands (f32_of_double nms_threshold)"
    by (elim bind_errE) simp
  from detect_candidates_boxes [OF c] show ?thesis
    using r set_optimizedNMS by blast
qed

theorem detect_boxes_not_inverted_witness:
  "detect nearest insertion_sort (detector_2x2 unit_outputs) (uniform_image 2 2) (1 / 2) (45 / 100) =
     Inr [\<lparr>id' = 3, box = \<lparr>left = 0, right = 2, top' = 0, bottom = 1\<rparr>, confidence = 255 / 256\<rparr>] \<and>
   left \<lparr>left = 0, right = 2, top' = 0, bottom = 1\<rparr> \<le> right \<lparr>left = 0, right = 2, top' = 0, bottom = 1\<rparr> \<and>
   top' \<lparr>left = 0, right = 2, top' = 0, bottom = 1\<rparr> \<le> bottom \<lparr>left = 0, right = 2, top' = 0, bottom = 1\<rparr>"
proof -
  have e: "detect nearest insertion_sort (detector_2x2 unit_outputs) (uniform_image 2 2) (1 / 2) (45 / 100) =
     Inr [\<lparr>id' = 3, box = \<lparr>left = 0, right = 2, top' = 0, bottom = 1\<rparr>, confidence = 255 / 256\<rparr>]"
    by code_simp
  from detect_boxes_not_inverted [OF e] show ?thesis
    using e by simp
qed

text \<open>
  The claim C2 has \<open>left < right\<close> and \<open>top < bottom\<close>. For a \<open>2 \<times> 2\<close> image and one
  box with the raw coordinates 0, 0, 1, 1, scale 1/4 and zero point 0, the
  coordinates are 0, 0, 0.25, 0.25: the box passes the comparison and is rounded to
  a box of no width and no height, which \<open>detect\<close> returns.
\<close>

theorem detect_zero_area_counterexample:
  "detect nearest insertion_sort (detector_2x2 subpixel_outputs) (uniform_image 2 2) (1 / 2) (45 / 100) =
     Inr [\<lparr>id' = 3, box = \<lparr>left = 0, right = 0, top' = 0, bottom = 0\<rparr>, confidence = 255 / 256\<rparr>]"
  by code_simp

lemma bind_err_Inr: "bind_err (Inr x) f = f x"
  by (simp add: bind_err_def)

lemma bind_err_Inl: "bind_err (Inl e) f = Inl e"
  by (simp add: bind_err_def)

lemma get_dequant_value_u8:
  "get_dequant_value bytes kTfLiteUInt8 i (f32_of_int (params_zero_point params))
     (params_scale params) =
   (if 0 \<le> i \<and> i < int (length bytes) then Inr (decode_u8 (bytes ! nat i) params)
    else Inl OutOfBounds)"
  by (simp add: get_dequant_value_def read_u8_def decode_u8_def f32_of_int_uint8)

lemma get_dequant_value_one:
  "get_dequant_value [raw] kTfLiteUInt8 0 (f32_of_int (params_zero_point params))
     (params_scale params) = Inr (decode_u8 raw params)"
  by (simp add: get_dequant_value_u8)

lemma read_u8_in: "0 \<le> i \<Longrightarrow> i < int (length bytes) \<Longrightarrow> read_u8 bytes i = Inr (bytes ! nat i)"
  by (simp add: read_u8_def)

lemma read_u8_out: "\<not> (0 \<le> i \<and> i < int (length bytes)) \<Longrightarrow> read_u8 bytes i = Inl OutOfBounds"
  by (simp add: read_u8_def)

text \<open>
  One round of the loop, completely: it fails where it reads outside of a tensor, and
  gives \<open>u8_candidate\<close> otherwise.
\<close>

lemma candidate_u8_candidate:
  "candidate (t_data boxesTensor) (t_data scoresTensor) (t_data classesTensor)
     (t_params boxesTensor) (t_params scoresTensor) box_threshold img_w img_h i =
   (if \<not> (0 \<le> i \<and> i < int (length (t_data scoresTensor))) then Inl OutOfBounds
    else if decode_u8 (t_data scoresTensor ! nat i) (t_params scoresTensor) < box_threshold
    then Inr None
    else if \<not> (i < int (length (t_data classesTensor)) \<and>
                i * 4 + 3 < int (length (t_data boxesTensor)))
    then Inl OutOfBounds
    else Inr (u8_candidate boxesTensor scoresTensor classesTensor box_threshold img_w img_h i))"
proof -
  let ?s = "t_data scoresTensor" and ?c = "t_data classesTensor" and ?b = "t_data boxesTensor"
  let ?score = "decode_u8 (?s ! nat i) (t_params scoresTensor)"
  show ?thesis
  proof (cases "0 \<le> i \<and> i < int (length ?s)")
    case False
    then have "get_dequant_value ?s kTfLiteUInt8 i
                 (f32_of_int (params_zero_point (t_params scoresTensor)))
                 (params_scale (t_params scoresTensor)) = Inl OutOfBounds"
      by (simp add: get_dequant_value_u8)
    with False show ?thesis
      by (simp add: candidate_def bind_err_Inl)
  next
    case s: True
    then have g: "get_dequant_value ?s kTfLiteUInt8 i
                 (f32_of_int (params_zero_point (t_params scoresTensor)))
                 (params_scale (t_params scoresTensor)) = Inr ?score"
      by (simp add: get_dequant_value_u8)
    show ?thesis
    proof (cases "?score < box_threshold")
      case True
      with s show ?thesis
        by (simp add: candidate_def g bind_err_Inr)
    next
      case t: False
      show ?thesis
      proof (cases "i < int (length ?c)")
        case False
        with s have "read_u8 ?c i = Inl OutOfBounds"
          by (simp add: read_u8_def)
        with s t False show ?thesis
          by (simp add: candidate_def g bind_err_Inr bind_err_Inl)
      next
        case c: True
        with s have rc: "read_u8 ?c i = Inr (?c ! nat i)"
          by (simp add: read_u8_def)
        show ?thesis
        proof (cases "i * 4 + 3 < int (length ?b)")
          case False
          have "bind_err (read_u8 ?b (i * 4 + 0)) (\<lambda>x1.
                bind_err (read_u8 ?b (i * 4 + 1)) (\<lambda>y1.
                bind_err (read_u8 ?b (i * 4 + 2)) (\<lambda>x2.
                bind_err (read_u8 ?b (i * 4 + 3)) (\<lambda>y2. f x1 y1 x2 y2)))) = Inl OutOfBounds"
            for f :: "uint8_t \<Rightarrow> uint8_t \<Rightarrow> uint8_t \<Rightarrow> uint8_t \<Rightarrow> error + DetectionResult option"
            using False by (simp add: bind_err_def read_u8_def)
          with s t c False show ?thesis
            by (simp add: candidate_def g rc bind_err_Inr)
        next
          case b: True
          from s b have r: "read_u8 ?b (i * 4 + 0) = Inr (?b ! nat (i * 4 + 0))"
            "read_u8 ?b (i * 4 + 1) = Inr (?b ! nat (i * 4 + 1))"
            "read_u8 ?b (i * 4 + 2) = Inr (?b ! nat (i * 4 + 2))"
            "read_u8 ?b (i * 4 + 3) = Inr (?b ! nat (i * 4 + 3))"
            by (intro read_u8_in; simp)+
          from s t c b show ?thesis
            by (simp add: candidate_def g rc r [simplified] bind_err_Inr get_dequant_value_one
                u8_candidate_def clamp_round_def Let_def)
        qed
      qed
    qed
  qed
qed

lemma u8_candidate_below:
  "decode_u8 (t_data scoresTensor ! nat i) (t_params scoresTensor) < box_threshold \<Longrightarrow>
   u8_candidate boxesTensor scoresTensor classesTensor box_threshold img_w img_h i = None"
  by (simp add: u8_candidate_def Let_def)

lemma candidates_loop_map_filter:
  "(\<And>i. i \<in> set idxs \<Longrightarrow> body i = Inr (f i)) \<Longrightarrow>
   candidates_loop body idxs acc = Inr (acc @ List.map_filter f idxs)"
proof (induction idxs arbitrary: acc)
  case Nil
  then show ?case by simp
next
  case (Cons i idxs)
  have b: "body i = Inr (f i)" using Cons.prems by simp
  have IH: "candidates_loop body idxs acc' = Inr (acc' @ List.map_filter f idxs)" for acc'
    using Cons.prems by (intro Cons.IH) simp
  show ?case
    by (cases "f i") (simp_all add: b IH)
qed

lemma candidates_loop_Inr:
  "candidates_loop body idxs acc = Inr out \<Longrightarrow>
   (\<And>i r. i \<in> set idxs \<Longrightarrow> body i = Inr r \<Longrightarrow> r = f i) \<Longrightarrow>
   out = acc @ List.map_filter f idxs"
proof (induction idxs arbitrary: acc)
  case Nil
  then show ?case by simp
next
  case (Cons i idxs)
  from Cons.prems(1) obtain r where b: "body i = Inr r"
    by (cases "body i") simp_all
  then have r: "r = f i" using Cons.prems(2) by simp
  have sub: "\<And>j r. j \<in> set idxs \<Longrightarrow> body j = Inr r \<Longrightarrow> r = f j"
    using Cons.prems(2) by simp
  show ?case
  proof (cases r)
    case None
    with b Cons.prems(1) have "candidates_loop body idxs acc = Inr out" by simp
    from Cons.IH [OF this sub] None r show ?thesis
      by simp
  next
    case (Some d)
    with b Cons.prems(1) have "candidates_loop body idxs (acc @ [d]) = Inr out" by simp
    from Cons.IH [OF this sub] Some r show ?thesis
      by simp
  qed
qed

lemma detect_candidates_Inr:
  assumes "detect_candidates outputs box_threshold img_w img_h = Inr cands"
  shows "2 < length outputs \<and>
         (\<exists>numBoxes. TfLiteTensorDim (outputs ! 0) 1 = Inr numBoxes \<and>
            cands = List.map_filter
              (u8_candidate (outputs ! 0) (outputs ! 1) (outputs ! 2) box_threshold img_w img_h)
              [0..numBoxes - 1])"
proof -
  have len: "2 < length outputs"
  proof (rule ccontr)
    assume "\<not> 2 < length outputs"
    then have "output_tensor outputs 2 = Inl NullPointer"
      by (simp add: output_tensor_def)
    then have "detect_candidates outputs box_threshold img_w img_h = Inl NullPointer"
      by (cases "output_tensor outputs 0"; cases "output_tensor outputs 1")
         (auto simp: detect_candidates_def bind_err_def output_tensor_def split: if_splits)
    with assms show False by simp
  qed
  then have ot: "output_tensor outputs 0 = Inr (outputs ! 0)"
    "output_tensor outputs 1 = Inr (outputs ! 1)" "output_tensor outputs 2 = Inr (outputs ! 2)"
    by (auto simp: output_tensor_def)
  with assms obtain numBoxes where
    n: "TfLiteTensorDim (outputs ! 0) 1 = Inr numBoxes"
    and l: "candidates_loop
             (candidate (t_data (outputs ! 0)) (t_data (outputs ! 1)) (t_data (outputs ! 2))
                (t_params (outputs ! 0)) (t_params (outputs ! 1)) box_threshold img_w img_h)
             [0..numBoxes - 1] [] = Inr cands"
    by (cases "TfLiteTensorDim (outputs ! 0) 1")
       (simp_all add: detect_candidates_def bind_err_def Let_def
          TfLiteTensorData_def TfLiteTensorQuantizationParams_def)
  have "cands = [] @ List.map_filter
              (u8_candidate (outputs ! 0) (outputs ! 1) (outputs ! 2) box_threshold img_w img_h)
              [0..numBoxes - 1]"
    using l
  proof (rule candidates_loop_Inr)
    fix i r
    assume "candidate (t_data (outputs ! 0)) (t_data (outputs ! 1)) (t_data (outputs ! 2))
                (t_params (outputs ! 0)) (t_params (outputs ! 1)) box_threshold img_w img_h i =
            Inr r"
    then show "r = u8_candidate (outputs ! 0) (outputs ! 1) (outputs ! 2)
                     box_threshold img_w img_h i"
      by (auto simp: candidate_u8_candidate u8_candidate_below split: if_splits)
  qed
  with len n show ?thesis by simp
qed

lemma detect_candidates_returns:
  assumes "2 < length outputs" and "TfLiteTensorDim (outputs ! 0) 1 = Inr numBoxes"
    and "numBoxes \<le> int (length (t_data (outputs ! 1)))"
    and "numBoxes \<le> int (length (t_data (outputs ! 2)))"
    and "4 * numBoxes \<le> int (length (t_data (outputs ! 0)))"
  shows "detect_candidates outputs box_threshold img_w img_h =
         Inr (List.map_filter
                (u8_candidate (outputs ! 0) (outputs ! 1) (outputs ! 2) box_threshold img_w img_h)
                [0..numBoxes - 1])"
proof -
  have "candidates_loop
          (candidate (t_data (outputs ! 0)) (t_data (outputs ! 1)) (t_data (outputs ! 2))
             (t_params (outputs ! 0)) (t_params (outputs ! 1)) box_threshold img_w img_h)
          [0..numBoxes - 1] [] =
        Inr ([] @ List.map_filter
          (u8_candidate (outputs ! 0) (outputs ! 1) (outputs ! 2) box_threshold img_w img_h)
          [0..numBoxes - 1])"
  proof (rule candidates_loop_map_filter)
    fix i assume "i \<in> set [0..numBoxes - 1]"
    then have "0 \<le> i" "i < numBoxes" by simp_all
    with assms(3-5) have "0 \<le> i \<and> i < int (length (t_data (outputs ! 1)))"
      "i < int (length (t_data (outputs ! 2))) \<and> i * 4 + 3 < int (length (t_data (outputs ! 0)))"
      by simp_all
    then show "candidate (t_data (outputs ! 0)) (t_data (outputs ! 1)) (t_data (outputs ! 2))
             (t_params (outputs ! 0)) (t_params (outputs ! 1)) box_threshold img_w img_h i =
           Inr (u8_candidate (outputs ! 0) (outputs ! 1) (outputs ! 2)
                  box_threshold img_w img_h i)"
      by (simp only: candidate_u8_candidate) (simp add: u8_candidate_below)
  qed
  moreover have "output_tensor outputs 0 = Inr (outputs ! 0)"
    "output_tensor outputs 1 = Inr (outputs ! 1)" "output_tensor outputs 2 = Inr (outputs ! 2)"
    using assms(1) by (auto simp: output_tensor_def)
  ultimately show ?thesis
    using assms(2)
    by (simp add: detect_candidates_def bind_err_def Let_def
        TfLiteTensorData_def TfLiteTensorQuantizationParams_def)
qed

lemma detect_Inr:
  assumes "detect interp choice self image' box_threshold nms_threshold = Inr results"
  shows "\<exists>input_data outputs numBoxes.
           detect_input interp self image' = Inr input_data \<and>
           invoke self input_data = Some outputs \<and> 2 < length outputs \<and>
           TfLiteTensorDim (outputs ! 0) 1 = Inr numBoxes \<and>
           results = optimizedNMS choice
             (List.map_filter
                (u8_candidate (outputs ! 0) (outputs ! 1) (outputs ! 2) box_threshold
                   (shape image' ! 1) (shape image' ! 0))
                [0..numBoxes - 1])
             (f32_of_double nms_threshold)"
proof -
  from assms obtain input_data where
    i: "detect_input interp self image' = Inr input_data"
    and "(case invoke self input_data of
       None \<Rightarrow> Inl (RuntimeError ''Interpreter invocation failed'')
     | Some outputs \<Rightarrow>
         bind_err (detect_candidates outputs box_threshold (shape image' ! 1) (shape image' ! 0))
           (\<lambda>candidateResults.
         Inr (optimizedNMS choice candidateResults (f32_of_double nms_threshold)))) = Inr results"
    unfolding detect_def by (elim bind_errE)
  then obtain outputs where
    o: "invoke self input_data = Some outputs"
    and "bind_err (detect_candidates outputs box_threshold (shape image' ! 1) (shape image' ! 0))
           (\<lambda>candidateResults.
         Inr (optimizedNMS choice candidateResults (f32_of_double nms_threshold))) = Inr results"
    by (cases "invoke self input_data") simp_all
  then obtain cands where
    c: "detect_candidates outputs box_threshold (shape image' ! 1) (shape image' ! 0) = Inr cands"
    and r: "results = optimizedNMS choice cands (f32_of_double nms_threshold)"
    by (elim bind_errE) simp
  from detect_candidates_Inr [OF c] i o r show ?thesis by blast
qed

lemma detect_returns:
  assumes "detect_input interp self image' = Inr input_data"
    and "invoke self input_data = Some outputs"
    and "2 < length outputs" and "TfLiteTensorDim (outputs ! 0) 1 = Inr numBoxes"
    and "numBoxes \<le> int (length (t_data (outputs ! 1)))"
    and "numBoxes \<le> int (length (t_data (outputs ! 2)))"
    and "4 * numBoxes \<le> int (length (t_data (outputs ! 0)))"
  shows "detect interp choice self image' box_threshold nms_threshold =
         Inr (optimizedNMS choice
               (List.map_filter
                  (u8_candidate (outputs ! 0) (outputs ! 1) (outputs ! 2) box_threshold
                     (shape image' ! 1) (shape image' ! 0))
                  [0..numBoxes - 1])
               (f32_of_double nms_threshold))"
  using assms(1,2) detect_candidates_returns [OF assms(3-7)]
  by (simp add: detect_def bind_err_def)

lemma detect_candidates_retype:
  "detect_candidates (map (\<lambda>t. t\<lparr>t_type := kind t\<rparr>) outputs) box_threshold img_w img_h =
   detect_candidates outputs box_threshold img_w img_h"
  by (simp add: detect_candidates_def output_tensor_def bind_err_def Let_def
      TfLiteTensorQuantizationParams_def TfLiteTensorDim_def TfLiteTensorData_def)

lemma detect_input_retype: "detect_input interp (retype kind self) buf = detect_input interp self buf"
  by (simp add: detect_input_def retype_def)

lemma detect_retype:
  "detect interp choice (retype kind self) image' box_threshold nms_threshold =
   detect interp choice self image' box_threshold nms_threshold"
  unfolding detect_def detect_input_retype
  by (cases "detect_input interp self image'";
      cases "invoke self (projr (detect_input interp self image'))")
     (simp_all add: bind_err_def retype_def detect_candidates_retype)

text \<open>
  C6, as the code has it. Whatever \<open>detect\<close> returns is the result of \<open>optimizedNMS\<close>
  for the candidates of the indexes 0 to \<open>numBoxes - 1\<close>, each decoded from the bytes of
  the three output tensors as 8-bit unsigned values: the score is
  \<open>(raw - zero_point) * scale\<close> of the byte at the index in the scores, with the
  parameters of that tensor, the class is the byte at the index in the classes, and
  the four coordinates are decoded in the same way from the four bytes in the boxes,
  then clamped and rounded. \<open>detect\<close> returns this whenever the image reaches the input
  tensor, the interpreter succeeds and the three tensors have the bytes of \<open>numBoxes\<close>
  candidates. It never looks at the element type of an output tensor: the result is
  the same for every declaration of these types, so the pass-through of float values
  in \<open>get_dequant_value\<close> is not reached.
\<close>

theorem detect_decodes_uint8:
  "(detect interp choice self image' box_threshold nms_threshold = Inr results \<longrightarrow>
      (\<exists>input_data outputs numBoxes.
         detect_input interp self image' = Inr input_data \<and>
         invoke self input_data = Some outputs \<and> 2 < length outputs \<and>
         TfLiteTensorDim (outputs ! 0) 1 = Inr numBoxes \<and>
         results = optimizedNMS choice
           (List.map_filter
              (u8_candidate (outputs ! 0) (outputs ! 1) (outputs ! 2) box_threshold
                 (shape image' ! 1) (shape image' ! 0))
              [0..numBoxes - 1])
           (f32_of_double nms_threshold))) \<and>
   (detect_input interp self image' = Inr input_data \<and>
    invoke self input_data = Some outputs \<and> 2 < length outputs \<and>
    TfLiteTensorDim (outputs ! 0) 1 = Inr numBoxes \<and>
    numBoxes \<le> int (length (t_data (outputs ! 1))) \<and>
    numBoxes \<le> int (length (t_data (outputs ! 2))) \<and>
    4 * numBoxes \<le> int (length (t_data (outputs ! 0))) \<longrightarrow>
      detect interp choice self image' box_threshold nms_threshold =
        Inr (optimizedNMS choice
              (List.map_filter
                 (u8_candidate (outputs ! 0) (outputs ! 1) (outputs ! 2) box_threshold
                    (shape image' ! 1) (shape image' ! 0))
                 [0..numBoxes - 1])
              (f32_of_double nms_threshold))) \<and>
   detect interp choice (retype kind self) image' box_threshold nms_threshold =
     detect interp choice self image' box_threshold nms_threshold"
proof (intro conjI impI)
  assume "detect interp choice self image' box_threshold nms_threshold = Inr results"
  then show "\<exists>input_data outputs numBoxes.
         detect_input interp self image' = Inr input_data \<and>
         invoke self input_data = Some outputs \<and> 2 < length outputs \<and>
         TfLiteTensorDim (outputs ! 0) 1 = Inr numBoxes \<and>
         results = optimizedNMS choice
           (List.map_filter
              (u8_candidate (outputs ! 0) (outputs ! 1) (outputs ! 2) box_threshold
                 (shape image' ! 1) (shape image' ! 0))
              [0..numBoxes - 1])
           (f32_of_double nms_threshold)"
    by (rule detect_Inr)
next
  assume "detect_input interp self image' = Inr input_data \<and>
    invoke self input_data = Some outputs \<and> 2 < length outputs \<and>
    TfLiteTensorDim (outputs ! 0) 1 = Inr numBoxes \<and>
    numBoxes \<le> int (length (t_data (outputs ! 1))) \<and>
    numBoxes \<le> int (length (t_data (outputs ! 2))) \<and>
    4 * numBoxes \<le> int (length (t_data (outputs ! 0)))"
  then show "detect interp choice self image' box_threshold nms_threshold =
        Inr (optimizedNMS choice
              (List.map_filter
                 (u8_candidate (outputs ! 0) (outputs ! 1) (outputs ! 2) box_threshold
                    (shape image' ! 1) (shape image' ! 0))
                 [0..numBoxes - 1])
              (f32_of_double nms_threshold))"
    using detect_returns by blast
next
  show "detect interp choice (retype kind self) image' box_threshold nms_threshold =
     detect interp choice self image' box_threshold nms_threshold"
    by (rule detect_retype)
qed

theorem detect_decodes_uint8_witness:
  "detect_input nearest (detector_2x2 unit_outputs) (uniform_image 2 2) =
     Inr [30, 20, 10, 30, 20, 10, 30, 20, 10, 30, 20, 10] \<and>
   u8_candidate (unit_outputs ! 0) (unit_outputs ! 1) (unit_outputs ! 2) (1 / 2) 2 2 0 =
     Some \<lparr>id' = 3, box = \<lparr>left = 0, right = 2, top' = 0, bottom = 1\<rparr>, confidence = 255 / 256\<rparr> \<and>
   detect nearest insertion_sort (detector_2x2 unit_outputs) (uniform_image 2 2) (1 / 2) (45 / 100) =
     Inr (optimizedNMS insertion_sort
           (List.map_filter
              (u8_candidate (unit_outputs ! 0) (unit_outputs ! 1) (unit_outputs ! 2) (1 / 2) 2 2)
              [0..0])
           (f32_of_double (45 / 100))) \<and>
   detect nearest insertion_sort (detector_2x2 unit_outputs) (uniform_image 2 2) (1 / 2) (45 / 100) =
     Inr [\<lparr>id' = 3, box = \<lparr>left = 0, right = 2, top' = 0, bottom = 1\<rparr>, confidence = 255 / 256\<rparr>] \<and>
   detect nearest insertion_sort (retype (\<lambda>t. kTfLiteFloat32) (detector_2x2 unit_outputs))
     (uniform_image 2 2) (1 / 2) (45 / 100) =
   detect nearest insertion_sort (detector_2x2 unit_outputs) (uniform_image 2 2) (1 / 2) (45 / 100)"
proof -
  have i: "detect_input nearest (detector_2x2 unit_outputs) (uniform_image 2 2) =
     Inr [30, 20, 10, 30, 20, 10, 30, 20, 10, 30, 20, 10]"
    by code_simp
  have u: "u8_candidate (unit_outputs ! 0) (unit_outputs ! 1) (unit_outputs ! 2) (1 / 2) 2 2 0 =
     Some \<lparr>id' = 3, box = \<lparr>left = 0, right = 2, top' = 0, bottom = 1\<rparr>, confidence = 255 / 256\<rparr>"
    by code_simp
  have e: "detect nearest insertion_sort (detector_2x2 unit_outputs) (uniform_image 2 2)
       (1 / 2) (45 / 100) =
     Inr [\<lparr>id' = 3, box = \<lparr>left = 0, right = 2, top' = 0, bottom = 1\<rparr>, confidence = 255 / 256\<rparr>]"
    by code_simp
  have o: "invoke (detector_2x2 unit_outputs) [30, 20, 10, 30, 20, 10, 30, 20, 10, 30, 20, 10] =
     Some unit_outputs"
    by (simp add: detector_2x2_def)
  have l: "2 < length unit_outputs" "TfLiteTensorDim (unit_outputs ! 0) 1 = Inr 1"
    "1 \<le> int (length (t_data (unit_outputs ! 1)))" "1 \<le> int (length (t_data (unit_outputs ! 2)))"
    "4 * 1 \<le> int (length (t_data (unit_outputs ! 0)))"
    by (simp_all add: unit_outputs_def mk_tensor_def TfLiteTensorDim_def)
  have s: "shape (uniform_image 2 2) ! 1 = 2" "shape (uniform_image 2 2) ! 0 = 2"
    by (simp_all add: uniform_image_def)
  have z: "(1 :: int) - 1 = 0" by simp
  note t = detect_decodes_uint8 [of nearest insertion_sort "detector_2x2 unit_outputs"
      "uniform_image 2 2" "1 / 2" "45 / 100" _
      "[30, 20, 10, 30, 20, 10, 30, 20, 10, 30, 20, 10]" unit_outputs 1
      "\<lambda>t. kTfLiteFloat32"]
  from t i o l
  have "detect nearest insertion_sort (detector_2x2 unit_outputs) (uniform_image 2 2) (1 / 2) (45 / 100) =
     Inr (optimizedNMS insertion_sort
           (List.map_filter
              (u8_candidate (unit_outputs ! 0) (unit_outputs ! 1) (unit_outputs ! 2) (1 / 2)
                 (shape (uniform_image 2 2) ! 1) (shape (uniform_image 2 2) ! 0))
              [0..1 - 1])
           (f32_of_double (45 / 100)))"
    by blast
  then have "detect nearest insertion_sort (detector_2x2 unit_outputs) (uniform_image 2 2) (1 / 2) (45 / 100) =
     Inr (optimizedNMS insertion_sort
           (List.map_filter
              (u8_candidate (unit_outputs ! 0) (unit_outputs ! 1) (unit_outputs ! 2) (1 / 2) 2 2)
              [0..0])
           (f32_of_double (45 / 100)))"
    by (simp only: s z)
  moreover from t
  have "detect nearest insertion_sort (retype (\<lambda>t. kTfLiteFloat32) (detector_2x2 unit_outputs))
     (uniform_image 2 2) (1 / 2) (45 / 100) =
   detect nearest insertion_sort (detector_2x2 unit_outputs) (uniform_image 2 2) (1 / 2) (45 / 100)"
    by blast
  ultimately show ?thesis using i u e by blast
qed

text \<open>
  The claim C6 has float tensors passed through unchanged. With output tensors of
  type \<^verbatim>\<open>kTfLiteFloat32\<close> that hold the box (0, 0, 2, 2) and the score 1.0, read as
  float values, \<open>detect\<close> reads the first byte of the score, which is 0, and drops
  the box: the score 1.0 is above the threshold 0.5.
\<close>

theorem float_outputs_counterexample:
  "TfLiteTensorType (float_outputs ! 0) = kTfLiteFloat32 \<and>
   TfLiteTensorType (float_outputs ! 1) = kTfLiteFloat32 \<and>
   get_dequant_value (TfLiteTensorData (float_outputs ! 1)) kTfLiteFloat32 0 0 0 = Inr 1 \<and>
   get_dequant_value (TfLiteTensorData (float_outputs ! 0)) kTfLiteFloat32 0 0 0 = Inr 0 \<and>
   get_dequant_value (TfLiteTensorData (float_outputs ! 0)) kTfLiteFloat32 1 0 0 = Inr 0 \<and>
   get_dequant_value (TfLiteTensorData (float_outputs ! 0)) kTfLiteFloat32 2 0 0 = Inr 2 \<and>
   get_dequant_value (TfLiteTensorData (float_outputs ! 0)) kTfLiteFloat32 3 0 0 = Inr 2 \<and>
   detect nearest insertion_sort (detector_2x2 float_outputs) (uniform_image 2 2) (1 / 2) (45 / 100) = Inr []"
  by code_simp

lemma detect_input_is_original:
  assumes "detect_input interp self buf = Inr bytes"
  shows "\<exists>img_mat rgb.
           mat_of_buffer (shape buf ! 0) (shape buf ! 1) (ptr buf) = Inr img_mat \<and>
           cvtColor_BGR2RGB img_mat = Inr rgb \<and>
           bytes = take (TfLiteTensorByteSize (input_tensor self)) (mat_bytes rgb)"
proof -
  from assms obtain whc :: "int \<times> int \<times> int" where
    "(case whc of (in_w, in_h, in_c) \<Rightarrow>
        bind_err (mat_of_buffer (shape buf ! 0) (shape buf ! 1) (ptr buf)) (\<lambda>img_mat.
        bind_err (cvtColor_BGR2RGB img_mat) (\<lambda>rgb.
        bind_err (if shape buf ! 1 \<noteq> in_w \<or> shape buf ! 0 \<noteq> in_h
                  then letterbox interp img_mat in_w else Inr img_mat) (\<lambda>img_mat.
        memcpy (mat_bytes rgb) (TfLiteTensorByteSize (input_tensor self)))))) = Inr bytes"
    by (auto simp: detect_input_def Let_def split: if_splits option.splits)
  then obtain img_mat rgb where
    "mat_of_buffer (shape buf ! 0) (shape buf ! 1) (ptr buf) = Inr img_mat"
    and "cvtColor_BGR2RGB img_mat = Inr rgb"
    and "memcpy (mat_bytes rgb) (TfLiteTensorByteSize (input_tensor self)) = Inr bytes"
    by (cases whc) (auto elim!: bind_errE)
  then show ?thesis
    by (auto simp: memcpy_def split: if_splits)
qed

text \<open>
  C1. The specification has the letterboxed image in the input tensor when the size
  of the image is not the size of the model input. \<open>detect\<close> calls \<open>letterbox\<close> on the
  image before the colour conversion and never uses the result: whenever it gets as
  far as the copy, the input tensor receives the first bytes of the colour-converted
  image of the original size. For an image of 2 rows and 4 columns and a model with a
  \<open>2 \<times> 2\<close> input these are the 12 bytes of its first row and a half, where the
  letterboxed image has the zero padding in its second row.
\<close>

theorem detect_input_not_letterboxed:
  "detect_input interp (detector_2x2 outputs) (uniform_image 2 4) =
     Inr [30, 20, 10, 30, 20, 10, 30, 20, 10, 30, 20, 10] \<and>
   map_sum id (drop 6) (detect_input_spec interp (detector_2x2 outputs) (uniform_image 2 4)) =
     Inr [0, 0, 0, 0, 0, 0] \<and>
   (\<forall>self buf bytes. detect_input interp self buf = Inr bytes \<longrightarrow>
      (\<exists>img_mat rgb.
         mat_of_buffer (shape buf ! 0) (shape buf ! 1) (ptr buf) = Inr img_mat \<and>
         cvtColor_BGR2RGB img_mat = Inr rgb \<and>
         bytes = take (TfLiteTensorByteSize (input_tensor self)) (mat_bytes rgb)))"
proof (intro conjI allI impI)
  show "detect_input interp (detector_2x2 outputs) (uniform_image 2 4) =
     Inr [30, 20, 10, 30, 20, 10, 30, 20, 10, 30, 20, 10]"
    by code_simp
  show "map_sum id (drop 6) (detect_input_spec interp (detector_2x2 outputs) (uniform_image 2 4)) =
     Inr [0, 0, 0, 0, 0, 0]"
    by code_simp
qed (rule detect_input_is_original)

theorem detect_input_not_letterboxed_witness:
  "detect_input nearest (detector_2x2 []) (uniform_image 2 4) =
     Inr [30, 20, 10, 30, 20, 10, 30, 20, 10, 30, 20, 10] \<and>
   map_sum id (drop 6) (detect_input_spec nearest (detector_2x2 []) (uniform_image 2 4)) =
     Inr [0, 0, 0, 0, 0, 0] \<and>
   (\<exists>img_mat rgb.
      mat_of_buffer 2 4 (ptr (uniform_image 2 4)) = Inr img_mat \<and>
      cvtColor_BGR2RGB img_mat = Inr rgb \<and>
      [30, 20, 10, 30, 20, 10, 30, 20, 10, 30, 20, 10] = take 12 (mat_bytes rgb))"
proof -
  have "shape (uniform_image 2 4) ! 0 = 2" "shape (uniform_image 2 4) ! 1 = 4"
    "TfLiteTensorByteSize (input_tensor (detector_2x2 [])) = 12"
    by (simp_all add: uniform_image_def detector_2x2_def mk_tensor_def TfLiteTensorByteSize_def)
  with detect_input_not_letterboxed [of nearest "[]"] show ?thesis
    by (metis (no_types, lifting))
qed

end
